theory Spec2Isabelle
  imports Main
begin

section \<open>Data model (models.py)\<close>

text \<open>
  The tables of \<^verbatim>\<open>models.py\<close> as records, one list of rows per table. Python's
  unbounded integers are \<open>int\<close>; a \<^verbatim>\<open>datetime\<close> is the number of microseconds since
  the epoch (an \<open>int\<close>), so that comparison of two datetimes is comparison of integers.
  A nullable column is an \<open>option\<close>.
\<close>

definition ROLE_NADADOR :: string where
  "ROLE_NADADOR = ''nadador''"

definition ROLE_SUPERVISOR :: string where
  "ROLE_SUPERVISOR = ''supervisor''"

definition ROLE_PRESIDENTE :: string where
  "ROLE_PRESIDENTE = ''presidente''"

definition HIDDEN_USER_ID :: int where
  "HIDDEN_USER_ID = 12"

record user =
  u_id :: int
  u_name :: string
  u_email :: string
  u_tax_number :: "string option"
  u_password_hash :: string
  u_role :: string
  u_is_active :: bool

record notification =
  n_id :: int
  n_user_id :: int
  n_title :: string
  n_message :: string
  n_type :: string
  n_created_at :: int
  n_read :: bool
  n_link :: "string option"

record password_reset_token =
  t_id :: int
  t_user_id :: int
  t_token :: string
  t_created_at :: int
  t_expires_at :: int
  t_used :: bool
  t_used_at :: "int option"

text \<open>
  The \<^verbatim>\<open>details\<close> of an activity are a Python dictionary of JSON values; the column
  stores its \<^verbatim>\<open>json.dumps\<close>. The model keeps the dictionary itself, as an association
  list.
\<close>

datatype jvalue =
  JNull
| JBool bool
| JInt int
| JStr string
| JList "jvalue list"
| JDict "(string \<times> jvalue) list"

type_synonym details = "(string \<times> jvalue) list"

record activity_log =
  a_id :: int
  a_user_id :: int
  a_action :: string
  a_description :: string
  a_ip_address :: "string option"
  a_created_at :: int
  a_details :: "details option"

record occurrence =
  o_id :: int
  o_date :: int
  o_zone :: string
  o_type :: string
  o_description :: "string option"
  o_user_id :: int

record database =
  users :: "user list"
  occurrences :: "occurrence list"
  notifications :: "notification list"
  activities :: "activity_log list"
  reset_tokens :: "password_reset_token list"

text \<open>
  A SQLAlchemy session: \<open>committed\<close> is what the database holds, \<open>working\<close> is what the
  session sees (the committed rows with the session's pending changes applied; queries
  autoflush, so they read \<open>working\<close>). \<^verbatim>\<open>db.session.commit()\<close> makes the working state
  the committed one, \<^verbatim>\<open>db.session.rollback()\<close> discards the pending changes.
\<close>

record session =
  committed :: database
  working :: database

definition commit :: "session \<Rightarrow> session" where
  "commit s = s\<lparr>committed := working s\<rparr>"

definition rollback :: "session \<Rightarrow> session" where
  "rollback s = s\<lparr>working := committed s\<rparr>"

definition fresh_session :: "database \<Rightarrow> session" where
  "fresh_session d = \<lparr>committed = d, working = d\<rparr>"

text \<open>An autoincrement primary key: one more than the largest key of the table.\<close>

definition next_id :: "int list \<Rightarrow> int" where
  "next_id ids = fold max ids 0 + 1"

text \<open>\<^verbatim>\<open>Model.query.get(id)\<close> and \<^verbatim>\<open>query.filter_by(...).first()\<close>.\<close>

definition get_user :: "database \<Rightarrow> int \<Rightarrow> user option" where
  "get_user d uid = find (\<lambda>u. u_id u = uid) (users d)"

definition get_notification :: "database \<Rightarrow> int \<Rightarrow> notification option" where
  "get_notification d nid = find (\<lambda>n. n_id n = nid) (notifications d)"

definition first_reset_token :: "database \<Rightarrow> string \<Rightarrow> password_reset_token option" where
  "first_reset_token d tok = find (\<lambda>t. t_token t = tok) (reset_tokens d)"

text \<open>
  Writing an attribute of a loaded row: the row the query returned (the first one that
  satisfies \<open>P\<close>) is replaced by its update.
\<close>

fun update_first :: "('a \<Rightarrow> bool) \<Rightarrow> ('a \<Rightarrow> 'a) \<Rightarrow> 'a list \<Rightarrow> 'a list" where
  "update_first P f [] = []"
| "update_first P f (x # xs) = (if P x then f x # xs else x # update_first P f xs)"

section \<open>Session user (app.py, load\_user)\<close>






section \<open>The request environment\<close>

text \<open>
  What a request handler reads from outside the repository: the clock
  (\<^verbatim>\<open>datetime.utcnow()\<close>, one reading per request), \<^verbatim>\<open>request.remote_addr\<close>,
  Flask's \<^verbatim>\<open>url_for\<close> (\<open>None\<close> when it raises), werkzeug's
  \<^verbatim>\<open>generate_password_hash\<close> and \<^verbatim>\<open>check_password_hash\<close>, Python's \<^verbatim>\<open>str\<close> on a
  JSON value, \<^verbatim>\<open>str.lower\<close>, \<^verbatim>\<open>datetime.strptime\<close> with the format
  \<^verbatim>\<open>'%Y-%m-%d'\<close> (\<open>None\<close> when it raises \<^verbatim>\<open>ValueError\<close>), the database's
  \<^verbatim>\<open>ILIKE '%q%'\<close> (\<open>env_ilike e q v\<close>), and which of the storage operations raise in
  this request.
\<close>

datatype endpoint =
  EP_activities
| EP_view_occurrence jvalue
| EP_ocorrencias
| EP_view_user jvalue

datatype fault =
  RemoteAddrFails
| SetDetailsFails
| ActivityAddFails
| UserGetFails
| UserFilterFails
| NotificationAddFails int
| ActivityCommitFails
| OccurrenceCommitFails
| TokenCommitFails
| PasswordCommitFails
| NotificationCommitFails

record env =
  env_now :: int
  env_remote_addr :: "string option"
  env_url_for :: "endpoint \<Rightarrow> string option"
  env_generate_password_hash :: "string \<Rightarrow> string"
  env_check_password_hash :: "string \<Rightarrow> string \<Rightarrow> bool"
  env_str :: "jvalue \<Rightarrow> string"
  env_lower :: "string \<Rightarrow> string"
  env_strptime :: "string \<Rightarrow> int option"
  env_ilike :: "string \<Rightarrow> string \<Rightarrow> bool"
  env_fails :: "fault \<Rightarrow> bool"

text \<open>
  A call either returns or raises; both leave a session behind. \<open>swallow\<close> is the
  callers' \<^verbatim>\<open>try: ... except Exception as e: print(...)\<close>.
\<close>

datatype 'a outcome = Raised 'a | Returned 'a

fun swallow :: "'a outcome \<Rightarrow> 'a" where
  "swallow (Raised s) = s"
| "swallow (Returned s) = s"


text \<open>Python truthiness of a JSON value, of an optional string and of \<^verbatim>\<open>details\<close>.\<close>

fun truthy :: "jvalue \<Rightarrow> bool" where
  "truthy JNull = False"
| "truthy (JBool b) = b"
| "truthy (JInt i) = (i \<noteq> 0)"
| "truthy (JStr s) = (s \<noteq> [])"
| "truthy (JList l) = (l \<noteq> [])"
| "truthy (JDict d) = (d \<noteq> [])"

definition str_truthy :: "string option \<Rightarrow> bool" where
  "str_truthy x = (case x of None \<Rightarrow> False | Some v \<Rightarrow> v \<noteq> [])"

definition details_truthy :: "details option \<Rightarrow> bool" where
  "details_truthy x = (case x of None \<Rightarrow> False | Some kv \<Rightarrow> kv \<noteq> [])"

text \<open>\<^verbatim>\<open>details.get(key, default) if details else default\<close>.\<close>

definition details_get :: "details option \<Rightarrow> string \<Rightarrow> jvalue \<Rightarrow> jvalue" where
  "details_get x k dflt =
     (case x of
        None \<Rightarrow> dflt
      | Some kv \<Rightarrow> (case map_of kv k of None \<Rightarrow> dflt | Some v \<Rightarrow> v))"

section \<open>The audit recorder (app.py, log\_activity)\<close>

text \<open>
  Title and message of the notification (lines 195 to 218). The source's last branch is
  \<^verbatim>\<open>elif action == 'toggle_user_status'\<close>, inside
  \<^verbatim>\<open>if action in ['login', ..., 'toggle_user_status']\<close>: it is the \<open>else\<close> here.
\<close>

definition notification_text :: "env \<Rightarrow> string \<Rightarrow> user \<Rightarrow> details option \<Rightarrow> string \<times> string" where
  "notification_text e action usr details =
     (if action = ''login'' then
        (''Novo Login Detectado'', u_name usr @ '' acabou de entrar no sistema.'')
      else if action = ''create_occurrence'' then
        (''Nova Ocorr'' @ [CHR 0xEA] @ ''ncia Registada'',
         u_name usr @ '' registou uma nova ocorr'' @ [CHR 0xEA] @ ''ncia.'')
      else if action = ''edit_occurrence'' then
        (''Ocorr'' @ [CHR 0xEA] @ ''ncia Editada'',
         u_name usr @ '' editou uma ocorr'' @ [CHR 0xEA] @ ''ncia.'')
      else if action = ''delete_occurrence'' then
        (''Ocorr'' @ [CHR 0xEA] @ ''ncia Removida'',
         u_name usr @ '' removeu uma ocorr'' @ [CHR 0xEA] @ ''ncia.'')
      else
        (if truthy (details_get details ''is_active'' (JBool True)) then
           (''Utilizador Reativado'', ''Utilizador foi reativado por '' @ u_name usr @ ''.'')
         else
           (''Utilizador Suspenso'',
            (let suspension_reason = details_get details ''suspension_reason'' (JStr [])
             in if truthy suspension_reason then
                  ''Utilizador suspenso por '' @ u_name usr @ ''. Raz'' @ [CHR 0xE3] @ ''o: ''
                    @ env_str e suspension_reason
                else ''Utilizador foi suspenso por '' @ u_name usr @ ''.''))))"

text \<open>
  The link of the notification (lines 224 to 249); \<open>None\<close> when a \<^verbatim>\<open>url_for\<close> outside
  the inner \<^verbatim>\<open>try\<close> blocks raises.
\<close>

definition notification_link :: "env \<Rightarrow> string \<Rightarrow> details option \<Rightarrow> string option" where
  "notification_link e action details =
     (let occurrence_id =
            (if details_truthy details then details_get details ''occurrence_id'' JNull else JNull);
          target_user_id =
            (if details_truthy details then details_get details ''user_id'' JNull else JNull)
      in case env_url_for e EP_activities of
           None \<Rightarrow> None
         | Some default_link \<Rightarrow>
             (case (if action \<in> set [''create_occurrence'', ''edit_occurrence'']
                       \<and> truthy occurrence_id then
                      (case env_url_for e (EP_view_occurrence occurrence_id) of
                         None \<Rightarrow> Some default_link
                       | Some l \<Rightarrow> Some l)
                    else if action = ''delete_occurrence'' then env_url_for e EP_ocorrencias
                    else Some default_link) of
                None \<Rightarrow> None
              | Some notif_link \<Rightarrow>
                  if action \<in> set [''create_user'', ''edit_user'', ''toggle_user_status'']
                      \<and> truthy target_user_id then
                    (case env_url_for e (EP_view_user target_user_id) of
                       None \<Rightarrow> Some default_link
                     | Some l \<Rightarrow> Some l)
                  else Some notif_link))"

text \<open>
  The audience (line 252): \<^verbatim>\<open>User.role.in_(['supervisor', 'presidente'])\<close> and
  \<^verbatim>\<open>User.id != HIDDEN_USER_ID\<close>.
\<close>

definition supervisors_query :: "database \<Rightarrow> user list" where
  "supervisors_query d =
     filter (\<lambda>u. u_role u \<in> set [''supervisor'', ''presidente''] \<and> u_id u \<noteq> HIDDEN_USER_ID)
       (users d)"

definition new_notification ::
  "env \<Rightarrow> database \<Rightarrow> int \<Rightarrow> string \<Rightarrow> string \<Rightarrow> string \<Rightarrow> notification" where
  "new_notification e d uid title message link =
     \<lparr>n_id = next_id (map n_id (notifications d)), n_user_id = uid, n_title = title,
      n_message = message, n_type = ''info'', n_created_at = env_now e, n_read = False,
      n_link = Some link\<rparr>"

text \<open>The loop of lines 253 to 261: one \<^verbatim>\<open>db.session.add\<close> per supervisor.\<close>

fun add_notifications ::
  "env \<Rightarrow> string \<Rightarrow> string \<Rightarrow> string \<Rightarrow> user list \<Rightarrow> session \<Rightarrow> session outcome" where
  "add_notifications e title message link [] s = Returned s"
| "add_notifications e title message link (supervisor # rest) s =
     (if env_fails e (NotificationAddFails (u_id supervisor)) then Raised s
      else add_notifications e title message link rest
             (s\<lparr>working := (working s)\<lparr>notifications := notifications (working s) @
                [new_notification e (working s) (u_id supervisor) title message link]\<rparr>\<rparr>))"

definition commit_activity :: "env \<Rightarrow> session \<Rightarrow> session outcome" where
  "commit_activity e s = (if env_fails e ActivityCommitFails then Raised s else Returned (commit s))"

text \<open>
  The second half of the \<^verbatim>\<open>try\<close> of \<^verbatim>\<open>log_activity\<close> (lines 189 to 263): the
  notifications for the actions that have them, and the commit.
\<close>

definition log_activity_notify ::
  "env \<Rightarrow> session \<Rightarrow> int \<Rightarrow> string \<Rightarrow> details option \<Rightarrow> bool \<Rightarrow> session outcome" where
  "log_activity_notify e s1 user_id action details notify_supervisors =
     (if action \<in> set [''login'', ''create_occurrence'', ''edit_occurrence'',
                       ''delete_occurrence'', ''toggle_user_status''] then
        (if env_fails e UserGetFails then Raised s1
         else case get_user (working s1) user_id of
           None \<Rightarrow> commit_activity e s1
         | Some usr \<Rightarrow>
             (let (title, message) = notification_text e action usr details
              in case notification_link e action details of
                   None \<Rightarrow> Raised s1
                 | Some notif_link \<Rightarrow>
                     if notify_supervisors then
                       (if env_fails e UserFilterFails then Raised s1
                        else case add_notifications e title message notif_link
                                    (supervisors_query (working s1)) s1 of
                               Raised s2 \<Rightarrow> Raised s2
                             | Returned s2 \<Rightarrow> commit_activity e s2)
                     else commit_activity e s1))
      else commit_activity e s1)"

text \<open>
  The body of the \<^verbatim>\<open>try\<close> of \<^verbatim>\<open>log_activity\<close> (lines 178 to 263): the activity row
  (lines 178 to 187), then the half above.
\<close>

definition new_activity ::
  "env \<Rightarrow> database \<Rightarrow> int \<Rightarrow> string \<Rightarrow> string \<Rightarrow> details option \<Rightarrow> string option
     \<Rightarrow> activity_log" where
  "new_activity e d user_id action description details ip =
     \<lparr>a_id = next_id (map a_id (activities d)), a_user_id = user_id,
      a_action = action, a_description = description,
      a_ip_address = (if str_truthy ip then ip else env_remote_addr e),
      a_created_at = env_now e,
      a_details = (if details_truthy details then details else None)\<rparr>"

definition log_activity_try ::
  "env \<Rightarrow> session \<Rightarrow> int \<Rightarrow> string \<Rightarrow> string \<Rightarrow> details option \<Rightarrow> string option \<Rightarrow> bool
     \<Rightarrow> session outcome" where
  "log_activity_try e s user_id action description details ip notify_supervisors =
     (if \<not> str_truthy ip \<and> env_fails e RemoteAddrFails then Raised s
      else if details_truthy details \<and> env_fails e SetDetailsFails then Raised s
      else if env_fails e ActivityAddFails then Raised s
      else
        log_activity_notify e
          (s\<lparr>working := (working s)\<lparr>activities := activities (working s) @
              [new_activity e (working s) user_id action description details ip]\<rparr>\<rparr>)
          user_id action details notify_supervisors)"

text \<open>
  \<^verbatim>\<open>log_activity\<close>: the \<^verbatim>\<open>try\<close> body under \<^verbatim>\<open>except Exception\<close>, whose handler
  rolls the session back and prints (neither is taken to raise).
\<close>

definition log_activity ::
  "env \<Rightarrow> session \<Rightarrow> int \<Rightarrow> string \<Rightarrow> string \<Rightarrow> details option \<Rightarrow> string option \<Rightarrow> bool
     \<Rightarrow> session outcome" where
  "log_activity e s user_id action description details ip notify_supervisors =
     (case log_activity_try e s user_id action description details ip notify_supervisors of
        Returned s' \<Rightarrow> Returned s'
      | Raised s' \<Rightarrow> Returned (rollback s'))"

section \<open>Password reset tokens (app.py)\<close>

text \<open>\<^verbatim>\<open>PasswordResetToken.is_valid\<close>; \<open>now\<close> is \<^verbatim>\<open>datetime.utcnow()\<close>.\<close>

definition is_valid :: "int \<Rightarrow> password_reset_token \<Rightarrow> bool" where
  "is_valid now t \<longleftrightarrow> \<not> t_used t \<and> now < t_expires_at t"

text \<open>
  \<^verbatim>\<open>verify_reset_token\<close>. The relationship \<^verbatim>\<open>reset_token.user\<close> loads the user whose
  primary key is the row's \<^verbatim>\<open>user_id\<close>.
\<close>

definition verify_reset_token :: "database \<Rightarrow> int \<Rightarrow> string \<Rightarrow> user option" where
  "verify_reset_token d now tok =
     (case first_reset_token d tok of
        None \<Rightarrow> None
      | Some reset_token \<Rightarrow>
          if \<not> is_valid now reset_token then None
          else get_user d (t_user_id reset_token))"

text \<open>
  \<^verbatim>\<open>mark_token_used\<close>: sets the two columns of the row found and commits. The function
  has no handler of its own: a commit that raises is the caller's to catch.
\<close>

definition mark_token_used :: "env \<Rightarrow> string \<Rightarrow> session \<Rightarrow> session outcome" where
  "mark_token_used e tok s =
     (case first_reset_token (working s) tok of
        None \<Rightarrow> Returned s
      | Some reset_token \<Rightarrow>
          (let s1 = s\<lparr>working := (working s)\<lparr>reset_tokens :=
                      update_first (\<lambda>t. t_token t = tok)
                        (\<lambda>t. t\<lparr>t_used := True, t_used_at := Some (env_now e)\<rparr>)
                        (reset_tokens (working s))\<rparr>\<rparr>
           in if env_fails e TokenCommitFails then Raised s1 else Returned (commit s1)))"

text \<open>
  \<^verbatim>\<open>generate_reset_token\<close>. The secret \<open>tok\<close> is the value \<^verbatim>\<open>secrets.token_urlsafe(32)\<close>
  returned; the column is unique, so the commit of a secret already stored raises. A
  datetime counts microseconds, an hour is 3600000000 of them.
\<close>

definition generate_reset_token ::
  "env \<Rightarrow> string \<Rightarrow> user \<Rightarrow> int \<Rightarrow> session \<Rightarrow> session outcome" where
  "generate_reset_token e tok usr expiration_hours s =
     (let expires_at = env_now e + expiration_hours * 3600000000;
          reset_token = \<lparr>t_id = next_id (map t_id (reset_tokens (working s))),
                         t_user_id = u_id usr, t_token = tok, t_created_at = env_now e,
                         t_expires_at = expires_at, t_used = False, t_used_at = None\<rparr>;
          s1 = s\<lparr>working := (working s)\<lparr>reset_tokens :=
                  reset_tokens (working s) @ [reset_token]\<rparr>\<rparr>
      in if tok \<in> set (map t_token (reset_tokens (working s))) \<or> env_fails e TokenCommitFails
         then Raised s1
         else Returned (commit s1))"

text \<open>\<^verbatim>\<open>User.set_password\<close>.\<close>

definition set_password :: "env \<Rightarrow> string \<Rightarrow> user \<Rightarrow> user" where
  "set_password e password usr =
     (if password \<noteq> [] then usr\<lparr>u_password_hash := env_generate_password_hash e password\<rparr>
      else usr)"

text \<open>
  A response of a route: a redirect to an endpoint or a rendered template, each with the
  category of the message flashed (if any), or a JSON body with its status.
\<close>

datatype response =
  Redirect string "string option"
| Render string "string option"
| Json bool nat
| NotFound

text \<open>
  \<^verbatim>\<open>reset_password\<close> (lines 1507 to 1533), in its two halves: the checks before the form
  is looked at (the read of the token), and the submission (the write). \<open>form\<close> is the
  validated password when \<^verbatim>\<open>form.validate_on_submit()\<close> holds, \<open>None\<close> otherwise.
\<close>

definition reset_password_verify :: "env \<Rightarrow> bool \<Rightarrow> string \<Rightarrow> session \<Rightarrow> response + user" where
  "reset_password_verify e is_authenticated tok s =
     (if is_authenticated then Inl (Redirect ''dashboard'' None)
      else case verify_reset_token (working s) (env_now e) tok of
             None \<Rightarrow> Inl (Redirect ''forgot_password'' (Some ''danger''))
           | Some usr \<Rightarrow> Inr usr)"

definition reset_password_submit ::
  "env \<Rightarrow> user \<Rightarrow> string \<Rightarrow> string option \<Rightarrow> session \<Rightarrow> response \<times> session" where
  "reset_password_submit e usr tok form s =
     (case form of
        None \<Rightarrow> (Render ''reset_password.html'' None, s)
      | Some password \<Rightarrow>
          (let s1 = s\<lparr>working := (working s)\<lparr>users :=
                      update_first (\<lambda>u. u_id u = u_id usr) (set_password e password)
                        (users (working s))\<rparr>\<rparr>
           in case mark_token_used e tok s1 of
                Raised s2 \<Rightarrow> (Render ''reset_password.html'' (Some ''danger''), rollback s2)
              | Returned s2 \<Rightarrow>
                  if env_fails e PasswordCommitFails then
                    (Render ''reset_password.html'' (Some ''danger''), rollback s2)
                  else
                    (Redirect ''login'' (Some ''success''),
                     swallow (log_activity e (commit s2) (u_id usr) ''password_reset''
                       (''Palavra-passe redefinida via recupera'' @ [CHR 0xE7, CHR 0xE3] @ ''o'')
                       None None False))))"

definition reset_password ::
  "env \<Rightarrow> bool \<Rightarrow> string \<Rightarrow> string option \<Rightarrow> session \<Rightarrow> response \<times> session" where
  "reset_password e is_authenticated tok form s =
     (case reset_password_verify e is_authenticated tok s of
        Inl r \<Rightarrow> (r, s)
      | Inr usr \<Rightarrow> reset_password_submit e usr tok form s)"

text \<open>The two answers of a redemption attempt that the claims name.\<close>

definition TokenInvalid :: response where
  "TokenInvalid = Redirect ''forgot_password'' (Some ''danger'')"

definition Redeemed :: response where
  "Redeemed = Redirect ''login'' (Some ''success'')"

text \<open>
  Token operations that any later request may run, for the permanence of \<open>used\<close>: the
  three functions that touch the table are \<^verbatim>\<open>generate_reset_token\<close>,
  \<^verbatim>\<open>mark_token_used\<close> and \<^verbatim>\<open>reset_password\<close>.
\<close>

datatype token_op =
  Generate env string user int
| MarkUsed env string
| ResetPassword env bool string "string option"

fun apply_token_op :: "token_op \<Rightarrow> database \<Rightarrow> database" where
  "apply_token_op (Generate e tok usr h) d =
     (case generate_reset_token e tok usr h (fresh_session d) of
        Raised s \<Rightarrow> committed s
      | Returned s \<Rightarrow> committed s)"
| "apply_token_op (MarkUsed e tok) d = committed (swallow (mark_token_used e tok (fresh_session d)))"
| "apply_token_op (ResetPassword e a tok form) d =
     committed (snd (reset_password e a tok form (fresh_session d)))"

definition apply_token_ops :: "token_op list \<Rightarrow> database \<Rightarrow> database" where
  "apply_token_ops ops d = fold apply_token_op ops d"

subsection \<open>Redemption attempts that overlap\<close>

text \<open>
  Each request has a session of its own over the one database. An attempt to redeem a
  token is \<^verbatim>\<open>reset_password\<close> with a valid form, by a visitor who is not logged in; it
  takes two steps, the read (\<open>reset_password_verify\<close>) and the write
  (\<open>reset_password_submit\<close>), and a schedule says which attempt takes its next step.
\<close>

datatype attempt_state = NotStarted | Verified user | Finished response

record attempt =
  at_env :: env
  at_password :: string
  at_state :: attempt_state

definition step_attempt :: "string \<Rightarrow> attempt \<Rightarrow> database \<Rightarrow> attempt \<times> database" where
  "step_attempt tok a d =
     (case at_state a of
        NotStarted \<Rightarrow>
          (case reset_password_verify (at_env a) False tok (fresh_session d) of
             Inl r \<Rightarrow> (a\<lparr>at_state := Finished r\<rparr>, d)
           | Inr usr \<Rightarrow> (a\<lparr>at_state := Verified usr\<rparr>, d))
      | Verified usr \<Rightarrow>
          (let (r, s') = reset_password_submit (at_env a) usr tok (Some (at_password a))
                           (fresh_session d)
           in (a\<lparr>at_state := Finished r\<rparr>, committed s'))
      | Finished r \<Rightarrow> (a, d))"

fun run_schedule :: "string \<Rightarrow> nat list \<Rightarrow> attempt list \<Rightarrow> database \<Rightarrow> attempt list \<times> database" where
  "run_schedule tok [] as d = (as, d)"
| "run_schedule tok (i # sched) as d =
     (if i < length as then
        (let (a', d') = step_attempt tok (as ! i) d
         in run_schedule tok sched (as[i := a']) d')
      else run_schedule tok sched as d)"

text \<open>Attempts one after the other: each is the whole of \<^verbatim>\<open>reset_password\<close>.\<close>

fun run_sequential ::
  "string \<Rightarrow> (env \<times> string) list \<Rightarrow> database \<Rightarrow> response list \<times> database" where
  "run_sequential tok [] d = ([], d)"
| "run_sequential tok ((e, password) # rest) d =
     (let (r, s') = reset_password e False tok (Some password) (fresh_session d);
          (rs, d') = run_sequential tok rest (committed s')
      in (r # rs, d'))"

section \<open>Routes that record an activity (app.py)\<close>

text \<open>\<^verbatim>\<open>User.check_password\<close>.\<close>

definition check_password :: "env \<Rightarrow> user \<Rightarrow> string \<Rightarrow> bool" where
  "check_password e usr password =
     (if password = [] \<or> u_password_hash usr = [] then False
      else env_check_password_hash e (u_password_hash usr) password)"

text \<open>
  \<^verbatim>\<open>login\<close> (lines 272 to 294). \<open>form\<close> holds the email and the password of a form
  that validated, \<open>None\<close> otherwise. The call of \<^verbatim>\<open>log_activity\<close> leaves
  \<^verbatim>\<open>notify_supervisors\<close> at its default, \<^verbatim>\<open>False\<close>.
\<close>

definition login ::
  "env \<Rightarrow> (string \<times> string) option \<Rightarrow> string \<Rightarrow> session \<Rightarrow> response \<times> session" where
  "login e form user_agent s =
     (case form of
        None \<Rightarrow> (Render ''login.html'' None, s)
      | Some (email, password) \<Rightarrow>
          (case find (\<lambda>u. u_email u = env_lower e email) (users (working s)) of
             None \<Rightarrow> (Render ''login.html'' (Some ''danger''), s)
           | Some usr \<Rightarrow>
               if check_password e usr password then
                 (Redirect ''dashboard'' None,
                  swallow (log_activity e s (u_id usr) ''login''
                    (''Iniciou sess'' @ [CHR 0xE3] @ ''o'')
                    (Some [(''user_agent'', JStr user_agent)]) None False))
               else (Render ''login.html'' (Some ''danger''), s)))"

text \<open>
  \<^verbatim>\<open>nova_ocorrencia\<close> (lines 519 to 564). \<open>form\<close> is the form that validated, \<open>None\<close>
  otherwise; \<open>f_date\<close> is the \<^verbatim>\<open>strptime\<close> of its date and time, \<open>None\<close> when that
  raises. The choices read for the template do not change the session and are left out.
\<close>

record occurrence_form =
  f_date :: "int option"
  f_zone :: string
  f_type :: string
  f_description :: "string option"

definition nova_ocorrencia ::
  "env \<Rightarrow> user \<Rightarrow> occurrence_form option \<Rightarrow> session \<Rightarrow> response \<times> session" where
  "nova_ocorrencia e current_user form s =
     (case form of
        None \<Rightarrow> (Render ''ocorrencia_form.html'' None, s)
      | Some f \<Rightarrow>
          (case f_date f of
             None \<Rightarrow> (Render ''ocorrencia_form.html'' (Some ''danger''), rollback s)
           | Some occurrence_date \<Rightarrow>
               (let occ = \<lparr>o_id = next_id (map o_id (occurrences (working s))),
                           o_date = occurrence_date, o_zone = f_zone f, o_type = f_type f,
                           o_description = f_description f, o_user_id = u_id current_user\<rparr>;
                    s1 = s\<lparr>working := (working s)\<lparr>occurrences :=
                            occurrences (working s) @ [occ]\<rparr>\<rparr>
                in if env_fails e OccurrenceCommitFails then
                     (Render ''ocorrencia_form.html'' (Some ''danger''), rollback s1)
                   else
                     (Redirect ''ocorrencias'' (Some ''success''),
                      swallow (log_activity e (commit s1) (u_id current_user)
                        ''create_occurrence''
                        (''Criou ocorr'' @ [CHR 0xEA] @ ''ncia #'' @ env_str e (JInt (o_id occ)))
                        (Some [(''occurrence_id'', JInt (o_id occ)),
                               (''zone'', JStr (o_zone occ)), (''type'', JStr (o_type occ))])
                        None True)))))"

text \<open>\<^verbatim>\<open>mark_notification_read\<close> (lines 1537 to 1556).\<close>

definition mark_notification_read ::
  "env \<Rightarrow> user \<Rightarrow> int \<Rightarrow> session \<Rightarrow> response \<times> session" where
  "mark_notification_read e current_user nid s =
     (case get_notification (working s) nid of
        None \<Rightarrow> (NotFound, s)
      | Some notification \<Rightarrow>
          if n_user_id notification \<noteq> u_id current_user then (Json False 403, s)
          else
            (let s1 = s\<lparr>working := (working s)\<lparr>notifications :=
                        update_first (\<lambda>n. n_id n = nid) (\<lambda>n. n\<lparr>n_read := True\<rparr>)
                          (notifications (working s))\<rparr>\<rparr>
             in if env_fails e NotificationCommitFails then (Json False 500, rollback s1)
                else
                  (Json True 200,
                   swallow (log_activity e (commit s1) (u_id current_user)
                     ''mark_notification_read''
                     (''Marcou notifica'' @ [CHR 0xE7, CHR 0xE3] @ ''o #'' @ env_str e (JInt nid)
                        @ '' como lida'')
                     (Some [(''notification_id'', JInt nid)]) None False))))"

section \<open>Listings (app.py)\<close>

text \<open>
  The query string of a listing. \<^verbatim>\<open>request.args.get('user_id', type=int)\<close> is an
  integer or \<^verbatim>\<open>None\<close>; \<^verbatim>\<open>if user_id:\<close> is false for both \<^verbatim>\<open>None\<close> and 0.
\<close>

record listing_args =
  arg_start_date :: "string option"
  arg_end_date :: "string option"
  arg_zone :: "string option"
  arg_type :: "string option"
  arg_user_id :: "int option"
  arg_search :: "string option"

definition no_args :: listing_args where
  "no_args = \<lparr>arg_start_date = None, arg_end_date = None, arg_zone = None, arg_type = None,
              arg_user_id = None, arg_search = None\<rparr>"

definition int_truthy :: "int option \<Rightarrow> bool" where
  "int_truthy x = (case x of None \<Rightarrow> False | Some n \<Rightarrow> n \<noteq> 0)"

text \<open>
  The swimmers a supervisor is offered (lines 428, 432, 821, 1093):
  \<^verbatim>\<open>User.role == ROLE_NADADOR, User.id != HIDDEN_USER_ID\<close>.
\<close>

definition nadadores_query :: "database \<Rightarrow> user list" where
  "nadadores_query d =
     filter (\<lambda>u. u_role u = ROLE_NADADOR \<and> u_id u \<noteq> HIDDEN_USER_ID) (users d)"

text \<open>
  The supervisor's branch of the permission block, the same lines in \<^verbatim>\<open>ocorrencias\<close>
  (421 to 431) and \<^verbatim>\<open>export_csv\<close> (1085 to 1095); \<open>None\<close> is the flash
  \<^verbatim>\<open>'Acesso negado ao utilizador solicitado'\<close> with its redirect.
\<close>

definition supervisor_scope ::
  "user \<Rightarrow> int option \<Rightarrow> database \<Rightarrow> occurrence list \<Rightarrow> occurrence list option" where
  "supervisor_scope current_user user_id d query =
     (let by_default =
            (let nadador_ids = map u_id (nadadores_query d);
                 nadador_ids_plus_self = nadador_ids @ [u_id current_user]
             in Some (filter (\<lambda>oc. o_user_id oc \<in> set nadador_ids_plus_self) query))
      in case user_id of
           None \<Rightarrow> by_default
         | Some uid \<Rightarrow>
             if uid \<noteq> 0 then
               (case get_user d uid of
                  None \<Rightarrow> None
                | Some target \<Rightarrow>
                    if u_role target \<noteq> ROLE_NADADOR then None
                    else Some (filter (\<lambda>oc. o_user_id oc = uid) query))
             else by_default)"

text \<open>The president's branch (lines 435 and 436, 1098 and 1099).\<close>

definition presidente_scope :: "int option \<Rightarrow> occurrence list \<Rightarrow> occurrence list" where
  "presidente_scope user_id query =
     (case user_id of
        None \<Rightarrow> query
      | Some uid \<Rightarrow> if uid \<noteq> 0 then filter (\<lambda>oc. o_user_id oc = uid) query else query)"

text \<open>
  The users a president is offered (lines 438 to 444, 824 to 827): everyone but the
  president, and but the hidden user unless the president is the hidden user.
\<close>

definition presidente_users :: "user \<Rightarrow> database \<Rightarrow> user list" where
  "presidente_users current_user d =
     (if u_id current_user = HIDDEN_USER_ID then
        filter (\<lambda>u. u_id u \<noteq> u_id current_user) (users d)
      else
        filter (\<lambda>u. u_id u \<noteq> u_id current_user \<and> u_id u \<noteq> HIDDEN_USER_ID) (users d))"

text \<open>
  The date filters (lines 447 to 457, 1102 to 1113); \<open>None\<close> is the \<^verbatim>\<open>ValueError\<close>
  branch. \<^verbatim>\<open>end_dt.replace(hour=23, minute=59, second=59)\<close> adds 86399 seconds to the
  midnight that \<^verbatim>\<open>strptime\<close> returned.
\<close>

definition date_filters ::
  "env \<Rightarrow> string option \<Rightarrow> string option \<Rightarrow> occurrence list \<Rightarrow> occurrence list option" where
  "date_filters e start_date end_date query =
     (case (case start_date of
              None \<Rightarrow> Some query
            | Some sd \<Rightarrow>
                if sd = [] then Some query
                else (case env_strptime e sd of
                        None \<Rightarrow> None
                      | Some start_dt \<Rightarrow> Some (filter (\<lambda>oc. start_dt \<le> o_date oc) query))) of
        None \<Rightarrow> None
      | Some query1 \<Rightarrow>
          (case end_date of
             None \<Rightarrow> Some query1
           | Some ed \<Rightarrow>
               if ed = [] then Some query1
               else (case env_strptime e ed of
                       None \<Rightarrow> None
                     | Some end_dt \<Rightarrow>
                         Some (filter (\<lambda>oc. o_date oc \<le> end_dt + 86399000000) query1))))"

definition zone_type_filters ::
  "string option \<Rightarrow> string option \<Rightarrow> occurrence list \<Rightarrow> occurrence list" where
  "zone_type_filters zone type_filter query =
     (let query1 = (if str_truthy zone then filter (\<lambda>oc. Some (o_zone oc) = zone) query else query)
      in if str_truthy type_filter then filter (\<lambda>oc. Some (o_type oc) = type_filter) query1
         else query1)"

text \<open>The search by name or tax number (lines 465 to 478).\<close>

definition search_filter ::
  "env \<Rightarrow> string option \<Rightarrow> database \<Rightarrow> occurrence list \<Rightarrow> occurrence list" where
  "search_filter e search_query d query =
     (case search_query of
        None \<Rightarrow> query
      | Some q \<Rightarrow>
          if q = [] then query
          else
            (let matching_users =
                   filter (\<lambda>u. env_ilike e q (u_name u) \<or>
                               (case u_tax_number u of None \<Rightarrow> False | Some t \<Rightarrow> env_ilike e q t))
                     (users d)
             in if matching_users \<noteq> [] then
                  filter (\<lambda>oc. o_user_id oc \<in> set (map u_id matching_users)) query
                else filter (\<lambda>oc. o_id oc = - 1) query))"

text \<open>\<^verbatim>\<open>order_by(Occurrence.date.desc())\<close>.\<close>

definition order_by_date_desc :: "occurrence list \<Rightarrow> occurrence list" where
  "order_by_date_desc query = rev (sort_key o_date query)"

datatype listing =
  ListingDenied
| ListingBadDate
| Listing "occurrence list" "user list option"

text \<open>
  \<^verbatim>\<open>ocorrencias\<close> (lines 395 to 482): the occurrences and the \<^verbatim>\<open>all_users\<close> handed to
  the template. The last branch of the permission block is the source's \<^verbatim>\<open>else\<close>,
  commented \<^verbatim>\<open># Presidente\<close>.
\<close>

definition ocorrencias :: "env \<Rightarrow> user \<Rightarrow> listing_args \<Rightarrow> database \<Rightarrow> listing" where
  "ocorrencias e current_user args d =
     (case (if u_role current_user = ROLE_NADADOR then
              Some (filter (\<lambda>oc. o_user_id oc = u_id current_user) (occurrences d), None)
            else if u_role current_user = ROLE_SUPERVISOR then
              (case supervisor_scope current_user (arg_user_id args) d (occurrences d) of
                 None \<Rightarrow> None
               | Some query \<Rightarrow> Some (query, Some (nadadores_query d)))
            else
              Some (presidente_scope (arg_user_id args) (occurrences d),
                    Some (presidente_users current_user d))) of
        None \<Rightarrow> ListingDenied
      | Some (query, all_users) \<Rightarrow>
          (case date_filters e (arg_start_date args) (arg_end_date args) query of
             None \<Rightarrow> ListingBadDate
           | Some query1 \<Rightarrow>
               Listing
                 (order_by_date_desc
                    (search_filter e (arg_search args) d
                       (zone_type_filters (arg_zone args) (arg_type args) query1)))
                 all_users))"

text \<open>
  \<^verbatim>\<open>export_csv\<close>, its query (lines 1070 to 1120) and the rows written (line 1127): each
  occurrence with \<^verbatim>\<open>o.user.email\<close>. \<open>ExportError\<close> is the \<^verbatim>\<open>AttributeError\<close> when an
  occurrence has no user. The encoding of the file and the activity recorded afterwards
  are left out.
\<close>

datatype export =
  ExportDenied
| ExportBadDate
| ExportError
| ExportRows "(occurrence \<times> string) list"

fun export_rows :: "database \<Rightarrow> occurrence list \<Rightarrow> (occurrence \<times> string) list option" where
  "export_rows d [] = Some []"
| "export_rows d (oc # occs) =
     (case get_user d (o_user_id oc) of
        None \<Rightarrow> None
      | Some usr \<Rightarrow>
          (case export_rows d occs of
             None \<Rightarrow> None
           | Some rows \<Rightarrow> Some ((oc, u_email usr) # rows)))"

definition export_csv :: "env \<Rightarrow> user \<Rightarrow> listing_args \<Rightarrow> database \<Rightarrow> export" where
  "export_csv e current_user args d =
     (case (if u_role current_user = ROLE_NADADOR then
              Some (filter (\<lambda>oc. o_user_id oc = u_id current_user) (occurrences d))
            else if u_role current_user = ROLE_SUPERVISOR then
              supervisor_scope current_user (arg_user_id args) d (occurrences d)
            else Some (presidente_scope (arg_user_id args) (occurrences d))) of
        None \<Rightarrow> ExportDenied
      | Some query \<Rightarrow>
          (case date_filters e (arg_start_date args) (arg_end_date args) query of
             None \<Rightarrow> ExportBadDate
           | Some query1 \<Rightarrow>
               (case export_rows d
                       (order_by_date_desc
                          (zone_type_filters (arg_zone args) (arg_type args) query1)) of
                  None \<Rightarrow> ExportError
                | Some rows \<Rightarrow> ExportRows rows)))"

text \<open>\<^verbatim>\<open>users\<close> (lines 806 to 829); \<open>None\<close> is \<^verbatim>\<open>'Acesso negado'\<close> with its redirect.\<close>

definition users_listing :: "user \<Rightarrow> database \<Rightarrow> user list option" where
  "users_listing current_user d =
     (if u_role current_user = ROLE_NADADOR then None
      else if u_role current_user = ROLE_SUPERVISOR then Some (nadadores_query d)
      else Some (presidente_users current_user d))"

section \<open>Notions used in the statements\<close>

text \<open>
  \<open>spent d tok\<close>: the row that the lookup by secret finds has \<^verbatim>\<open>used\<close> set.
\<close>

definition spent :: "database \<Rightarrow> string \<Rightarrow> bool" where
  "spent d tok \<longleftrightarrow> (\<exists>t. first_reset_token d tok = Some t \<and> t_used t)"

text \<open>
  One operation on the token table: nothing, the marking of the row of some secret, or a
  new row at the end.
\<close>

definition token_step :: "password_reset_token list \<Rightarrow> password_reset_token list \<Rightarrow> bool" where
  "token_step ts ts' \<longleftrightarrow>
     ts' = ts
     \<or> (\<exists>tok' n. ts' = update_first (\<lambda>t. t_token t = tok')
                        (\<lambda>t. t\<lparr>t_used := True, t_used_at := Some n\<rparr>) ts)
     \<or> (\<exists>x. ts' = ts @ [x])"

text \<open>
  \<open>logs_appended d d'\<close>: \<open>d'\<close> is \<open>d\<close> with rows added at the end of the notifications
  and of the activities, and nothing else changed.
\<close>

definition logs_appended :: "database \<Rightarrow> database \<Rightarrow> bool" where
  "logs_appended d d' \<longleftrightarrow>
     (\<exists>ns as. d' = d\<lparr>notifications := notifications d @ ns, activities := activities d @ as\<rparr>)"

text \<open>
  What a step of the audit recorder leaves of the session \<open>s\<close> it started from: when it
  raises, the committed state of \<open>s\<close>; when it returns, a committed state that is the
  working state of \<open>s\<close> with log rows appended.
\<close>

definition tried :: "session \<Rightarrow> session outcome \<Rightarrow> bool" where
  "tried s r \<longleftrightarrow>
     (case r of
        Raised s' \<Rightarrow> committed s' = committed s
      | Returned s' \<Rightarrow> committed s' = working s' \<and> logs_appended (working s) (working s'))"

section \<open>Sample data\<close>

text \<open>Decimal digits of a natural number, for the sample \<^verbatim>\<open>str\<close> and \<^verbatim>\<open>url_for\<close>.\<close>

definition digit_char :: "nat \<Rightarrow> char" where
  "digit_char n = ''0123456789'' ! n"

function nat_digits :: "nat \<Rightarrow> string" where
  "nat_digits n =
     (if n < 10 then [digit_char n] else nat_digits (n div 10) @ [digit_char (n mod 10)])"
  by pat_completeness auto
termination
  by (relation "measure (\<lambda>n. n)") auto

definition sample_str :: "jvalue \<Rightarrow> string" where
  "sample_str v =
     (case v of
        JNull \<Rightarrow> ''None''
      | JBool b \<Rightarrow> (if b then ''True'' else ''False'')
      | JInt i \<Rightarrow> (if i < 0 then ''-'' else []) @ nat_digits (nat \<bar>i\<bar>)
      | JStr s \<Rightarrow> s
      | JList l \<Rightarrow> ''[...]''
      | JDict d \<Rightarrow> ''{...}'')"

text \<open>The routes of \<^verbatim>\<open>app.py\<close> that \<^verbatim>\<open>log_activity\<close> links to.\<close>

definition sample_url_for :: "endpoint \<Rightarrow> string option" where
  "sample_url_for ep =
     (case ep of
        EP_activities \<Rightarrow> Some ''/activities''
      | EP_ocorrencias \<Rightarrow> Some ''/ocorrencias''
      | EP_view_occurrence v \<Rightarrow>
          (case v of JInt i \<Rightarrow> if 0 \<le> i then Some (''/ocorrencia/'' @ sample_str v) else None
                   | _ \<Rightarrow> None)
      | EP_view_user v \<Rightarrow>
          (case v of JInt i \<Rightarrow> if 0 \<le> i then Some (''/users/'' @ sample_str v) else None
                   | _ \<Rightarrow> None))"

definition sample_env :: env where
  "sample_env =
     \<lparr>env_now = 1000, env_remote_addr = Some ''127.0.0.1'', env_url_for = sample_url_for,
      env_generate_password_hash = (\<lambda>p. ''hash:'' @ p),
      env_check_password_hash = (\<lambda>h p. h = ''hash:'' @ p),
      env_str = sample_str, env_lower = (\<lambda>x. x), env_strptime = (\<lambda>x. None),
      env_ilike = (\<lambda>q v. False), env_fails = (\<lambda>x. False)\<rparr>"

definition ana :: user where
  "ana = \<lparr>u_id = 1, u_name = ''Ana'', u_email = ''ana@example.org'', u_tax_number = None,
          u_password_hash = ''hash:a'', u_role = ''nadador'', u_is_active = True\<rparr>"

definition bruno :: user where
  "bruno = \<lparr>u_id = 2, u_name = ''Bruno'', u_email = ''bruno@example.org'', u_tax_number = None,
            u_password_hash = ''hash:b'', u_role = ''supervisor'', u_is_active = True\<rparr>"

definition carla :: user where
  "carla = \<lparr>u_id = 3, u_name = ''Carla'', u_email = ''carla@example.org'', u_tax_number = None,
            u_password_hash = ''hash:c'', u_role = ''presidente'', u_is_active = True\<rparr>"

definition duarte :: user where
  "duarte = \<lparr>u_id = 4, u_name = ''Duarte'', u_email = ''duarte@example.org'',
             u_tax_number = None, u_password_hash = ''hash:d'', u_role = ''nadador'',
             u_is_active = False\<rparr>"

definition token_a :: password_reset_token where
  "token_a = \<lparr>t_id = 1, t_user_id = 1, t_token = ''tok-A'', t_created_at = 0,
              t_expires_at = 3600000000, t_used = False, t_used_at = None\<rparr>"

definition sample_db :: database where
  "sample_db = \<lparr>users = [ana, bruno, carla, duarte], occurrences = [], notifications = [],
                activities = [], reset_tokens = [token_a]\<rparr>"

definition small_db :: database where
  "small_db = \<lparr>users = [ana, bruno], occurrences = [], notifications = [],
               activities = [], reset_tokens = []\<rparr>"


definition sample_form :: occurrence_form where
  "sample_form = \<lparr>f_date = Some 500, f_zone = ''Reconquinho'', f_type = ''Resgate'',
                  f_description = None\<rparr>"

definition note_b :: notification where
  "note_b = \<lparr>n_id = 5, n_user_id = 2, n_title = ''Novo Login Detectado'',
             n_message = ''Ana acabou de entrar no sistema.'', n_type = ''info'',
             n_created_at = 900, n_read = False, n_link = Some ''/activities''\<rparr>"

definition notified_db :: database where
  "notified_db = sample_db\<lparr>notifications := [note_b]\<rparr>"

definition first_attempt :: attempt where
  "first_attempt = \<lparr>at_env = sample_env, at_password = ''secret1'', at_state = NotStarted\<rparr>"

definition second_attempt :: attempt where
  "second_attempt = \<lparr>at_env = sample_env\<lparr>env_now := 2000\<rparr>, at_password = ''secret2'',
                      at_state = NotStarted\<rparr>"

definition spent_db :: database where
  "spent_db = sample_db\<lparr>reset_tokens := [token_a\<lparr>t_used := True, t_used_at := Some 1000\<rparr>]\<rparr>"

text \<open>A database in which the hidden user (id 12) is a swimmer, and one in which it is a supervisor.\<close>

definition oculto :: user where
  "oculto = \<lparr>u_id = 12, u_name = ''Oculto'', u_email = ''oculto@example.org'',
             u_tax_number = None, u_password_hash = ''hash:o'', u_role = ''nadador'',
             u_is_active = True\<rparr>"

definition oculta :: user where
  "oculta = \<lparr>u_id = 12, u_name = ''Oculta'', u_email = ''oculta@example.org'',
             u_tax_number = None, u_password_hash = ''hash:o'', u_role = ''supervisor'',
             u_is_active = True\<rparr>"

definition occ_ana :: occurrence where
  "occ_ana = \<lparr>o_id = 1, o_date = 100, o_zone = ''Reconquinho'', o_type = ''Resgate'',
              o_description = None, o_user_id = 1\<rparr>"

definition occ_oculto :: occurrence where
  "occ_oculto = \<lparr>o_id = 2, o_date = 200, o_zone = ''Vimieiro'', o_type = ''Primeiros socorros'',
                 o_description = None, o_user_id = 12\<rparr>"

definition hidden_db :: database where
  "hidden_db = \<lparr>users = [ana, bruno, carla, oculto], occurrences = [occ_ana, occ_oculto],
                notifications = [], activities = [], reset_tokens = []\<rparr>"

definition hidden_supervisor_db :: database where
  "hidden_supervisor_db =
     \<lparr>users = [ana, carla, oculta], occurrences = [occ_ana, occ_oculto],
      notifications = [], activities = [], reset_tokens = []\<rparr>"

section \<open>Properties\<close>

lemmas sample_defs = sample_db_def ana_def bruno_def carla_def duarte_def token_a_def
  sample_env_def fresh_session_def

lemmas eval_defs = login_def check_password_def nova_ocorrencia_def log_activity_def
  log_activity_try_def log_activity_notify_def notification_text_def notification_link_def
  commit_activity_def commit_def rollback_def new_activity_def new_notification_def next_id_def
  get_user_def str_truthy_def details_truthy_def details_get_def supervisors_query_def
  sample_url_for_def sample_str_def digit_char_def HIDDEN_USER_ID_def Let_def


subsection \<open>Rows found and rows updated\<close>

lemma find_Some_P: "find P xs = Some x \<Longrightarrow> P x \<and> x \<in> set xs"
  by (induction xs) (auto split: if_splits)

lemma find_append_Some: "find P xs = Some x \<Longrightarrow> find P (xs @ ys) = Some x"
  by (induction xs) (auto split: if_splits)

lemma find_distinct_key:
  "distinct (map f xs) \<Longrightarrow> x \<in> set xs \<Longrightarrow> find (\<lambda>y. f y = f x) xs = Some x"
  by (induction xs) (auto simp: image_iff)

lemma find_update_first:
  "(\<And>x. P x \<Longrightarrow> P (f x)) \<Longrightarrow> find P (update_first P f xs) = map_option f (find P xs)"
  by (induction xs) auto

lemma find_update_first_other:
  "(\<And>x. Q (f x) = Q x) \<Longrightarrow> (\<And>x. P x \<Longrightarrow> \<not> Q x) \<Longrightarrow>
   find Q (update_first P f xs) = find Q xs"
  by (induction xs) auto

subsection \<open>What the audit recorder leaves behind\<close>

lemma logs_appended_refl: "logs_appended d d"
  unfolding logs_appended_def
  by (rule exI[of _ "[]"], rule exI[of _ "[]"]) simp

lemma logs_appended_notification:
  "logs_appended d d1 \<Longrightarrow> logs_appended d (d1\<lparr>notifications := notifications d1 @ [n]\<rparr>)"
  unfolding logs_appended_def
proof (elim exE)
  fix ns as
  assume "d1 = d\<lparr>notifications := notifications d @ ns, activities := activities d @ as\<rparr>"
  then have "d1\<lparr>notifications := notifications d1 @ [n]\<rparr>
      = d\<lparr>notifications := notifications d @ (ns @ [n]), activities := activities d @ as\<rparr>"
    by simp
  then show "\<exists>ns as. d1\<lparr>notifications := notifications d1 @ [n]\<rparr>
      = d\<lparr>notifications := notifications d @ ns, activities := activities d @ as\<rparr>"
    by blast
qed

lemma logs_appended_activity:
  "logs_appended d (d\<lparr>activities := activities d @ [a]\<rparr>)"
  unfolding logs_appended_def
  by (rule exI[of _ "[]"], rule exI[of _ "[a]"]) simp

lemma logs_appended_core:
  "logs_appended d d' \<Longrightarrow>
     users d' = users d \<and> occurrences d' = occurrences d \<and> reset_tokens d' = reset_tokens d"
  unfolding logs_appended_def by auto

lemma add_notifications_shape:
  "logs_appended d0 (working s) \<Longrightarrow>
   \<exists>s'. (add_notifications e t m l sups s = Raised s' \<or> add_notifications e t m l sups s = Returned s')
        \<and> committed s' = committed s \<and> logs_appended d0 (working s')"
proof (induction sups arbitrary: s)
  case Nil
  then show ?case by simp
next
  case (Cons sup sups)
  show ?case
  proof (cases "env_fails e (NotificationAddFails (u_id sup))")
    case True
    with Cons.prems show ?thesis by simp
  next
    case False
    let ?s1 = "s\<lparr>working := (working s)\<lparr>notifications := notifications (working s) @
                [new_notification e (working s) (u_id sup) t m l]\<rparr>\<rparr>"
    have "logs_appended d0 (working ?s1)"
      using Cons.prems by (simp add: logs_appended_notification)
    from Cons.IH[OF this] False show ?thesis by simp
  qed
qed

lemma commit_activity_tried:
  "committed s1 = committed s \<Longrightarrow> logs_appended (working s) (working s1) \<Longrightarrow>
   tried s (commit_activity e s1)"
  by (simp add: tried_def commit_activity_def commit_def)

lemma add_then_commit_tried:
  assumes "committed s1 = committed s" "logs_appended (working s) (working s1)"
  shows "tried s (case add_notifications e t m l sups s1 of
                   Raised s2 \<Rightarrow> Raised s2 | Returned s2 \<Rightarrow> commit_activity e s2)"
proof -
  from add_notifications_shape[OF assms(2), of e t m l sups]
  obtain s2 where s2: "add_notifications e t m l sups s1 = Raised s2 \<or> add_notifications e t m l sups s1 = Returned s2"
      "committed s2 = committed s1" "logs_appended (working s) (working s2)" by blast
  from s2(1) show ?thesis
  proof
    assume "add_notifications e t m l sups s1 = Raised s2"
    with s2 assms show ?thesis by (simp add: tried_def)
  next
    assume "add_notifications e t m l sups s1 = Returned s2"
    with s2 assms show ?thesis by (simp add: commit_activity_tried)
  qed
qed

lemma log_activity_notify_tried:
  assumes "committed s1 = committed s" "logs_appended (working s) (working s1)"
  shows "tried s (log_activity_notify e s1 u a dt n)"
proof -
  have r: "tried s (Raised s1)" using assms by (simp add: tried_def)
  define acts where "acts = [''login'', ''create_occurrence'', ''edit_occurrence'',
                       ''delete_occurrence'', ''toggle_user_status'']"
  show ?thesis
    unfolding log_activity_notify_def acts_def[symmetric]
    by (simp add: r commit_activity_tried[OF assms] add_then_commit_tried[OF assms]
          split: option.split prod.split)
qed

lemma log_activity_try_tried: "tried s (log_activity_try e s u a de dt ip n)"
proof -
  have r: "tried s (Raised s)" by (simp add: tried_def)
  have "tried s (log_activity_notify e
          (s\<lparr>working := (working s)\<lparr>activities := activities (working s) @
              [new_activity e (working s) u a de dt ip]\<rparr>\<rparr>) u a dt n)"
    by (rule log_activity_notify_tried) (simp_all add: logs_appended_activity)
  with r show ?thesis unfolding log_activity_try_def by simp
qed

lemma log_activity_returns:
  "\<exists>s'. log_activity e s u a de dt ip n = Returned s' \<and> working s' = committed s'
        \<and> (committed s' = committed s \<or> logs_appended (working s) (committed s'))"
  using log_activity_try_tried[of s e u a de dt ip n]
  unfolding log_activity_def tried_def
  by (cases "log_activity_try e s u a de dt ip n") (simp_all add: rollback_def)


lemma rollback_added:
  "rollback (s\<lparr>working := w\<rparr>) = rollback s"
  by (simp add: rollback_def)

lemma log_activity_notify_unflagged:
  "log_activity_notify e s1 u a dt False = Raised s1
   \<or> log_activity_notify e s1 u a dt False = commit_activity e s1"
proof -
  define acts where "acts = [''login'', ''create_occurrence'', ''edit_occurrence'',
                       ''delete_occurrence'', ''toggle_user_status'']"
  show ?thesis
    unfolding log_activity_notify_def acts_def[symmetric]
    by (simp split: option.split prod.split)
qed

lemma log_activity_notify_unlisted:
  "a \<notin> set [''login'', ''create_occurrence'', ''edit_occurrence'',
              ''delete_occurrence'', ''toggle_user_status''] \<Longrightarrow>
   log_activity_notify e s1 u a dt n = commit_activity e s1"
  unfolding log_activity_notify_def by (simp only: if_False)

lemma log_activity_quiet:
  assumes "\<not> n \<or> a \<notin> set [''login'', ''create_occurrence'', ''edit_occurrence'',
              ''delete_occurrence'', ''toggle_user_status'']"
  shows "log_activity e s u a de dt ip n = Returned (rollback s)
   \<or> log_activity e s u a de dt ip n =
       Returned (commit (s\<lparr>working := (working s)\<lparr>activities := activities (working s) @
              [new_activity e (working s) u a de dt ip]\<rparr>\<rparr>))"
proof -
  let ?s1 = "s\<lparr>working := (working s)\<lparr>activities := activities (working s) @
              [new_activity e (working s) u a de dt ip]\<rparr>\<rparr>"
  have "log_activity_notify e ?s1 u a dt n = Raised ?s1
   \<or> log_activity_notify e ?s1 u a dt n = commit_activity e ?s1"
  proof (cases n)
    case False
    then show ?thesis using log_activity_notify_unflagged[of e ?s1 u a dt] by simp
  next
    case True
    with assms have "a \<notin> set [''login'', ''create_occurrence'', ''edit_occurrence'',
              ''delete_occurrence'', ''toggle_user_status'']" by simp
    then have "log_activity_notify e ?s1 u a dt n = commit_activity e ?s1"
      by (rule log_activity_notify_unlisted)
    then show ?thesis by (rule disjI2)
  qed
  moreover have "commit_activity e ?s1 = Raised ?s1 \<or> commit_activity e ?s1 = Returned (commit ?s1)"
    by (simp add: commit_activity_def)
  moreover have "log_activity_try e s u a de dt ip n = Raised s
     \<or> log_activity_try e s u a de dt ip n = log_activity_notify e ?s1 u a dt n"
    unfolding log_activity_try_def by simp
  ultimately have "log_activity_try e s u a de dt ip n = Raised s
     \<or> log_activity_try e s u a de dt ip n = Raised ?s1
     \<or> log_activity_try e s u a de dt ip n = Returned (commit ?s1)"
    by metis
  then show ?thesis
    unfolding log_activity_def by (auto simp: rollback_added)
qed

lemma add_notifications_ok:
  assumes "\<forall>x. \<not> env_fails e x"
  shows "\<exists>new. add_notifications e t m l sups s =
            Returned (s\<lparr>working := (working s)\<lparr>notifications := notifications (working s) @ new\<rparr>\<rparr>)
          \<and> map n_user_id new = map u_id sups
          \<and> list_all (\<lambda>n. n_title n = t \<and> n_message n = m \<and> n_link n = Some l
                            \<and> n_type n = ''info'' \<and> \<not> n_read n) new"
proof (induction sups arbitrary: s)
  case Nil
  show ?case by (rule exI[of _ "[]"]) simp
next
  case (Cons sup sups)
  let ?n = "new_notification e (working s) (u_id sup) t m l"
  let ?s1 = "s\<lparr>working := (working s)\<lparr>notifications := notifications (working s) @ [?n]\<rparr>\<rparr>"
  from Cons.IH[of ?s1] obtain new where
    new: "add_notifications e t m l sups ?s1 =
            Returned (?s1\<lparr>working := (working ?s1)\<lparr>notifications := notifications (working ?s1) @ new\<rparr>\<rparr>)"
      "map n_user_id new = map u_id sups"
      "list_all (\<lambda>n. n_title n = t \<and> n_message n = m \<and> n_link n = Some l
                            \<and> n_type n = ''info'' \<and> \<not> n_read n) new"
    by blast
  show ?case
  proof (rule exI[of _ "?n # new"], intro conjI)
    show "add_notifications e t m l (sup # sups) s =
      Returned (s\<lparr>working := (working s)\<lparr>notifications := notifications (working s) @ ?n # new\<rparr>\<rparr>)"
      using assms new(1) by simp
    show "map n_user_id (?n # new) = map u_id (sup # sups)"
      using new(2) by (simp add: new_notification_def)
    show "list_all (\<lambda>n. n_title n = t \<and> n_message n = m \<and> n_link n = Some l
                            \<and> n_type n = ''info'' \<and> \<not> n_read n) (?n # new)"
      using new(3) by (simp add: new_notification_def)
  qed
qed

lemma log_activity_flagged_ok:
  assumes nofault: "\<forall>x. \<not> env_fails e x"
      and act: "a \<in> set [''login'', ''create_occurrence'', ''edit_occurrence'',
              ''delete_occurrence'', ''toggle_user_status'']"
      and usr: "get_user (working s) u = Some usr"
      and link: "notification_link e a dt = Some l"
  shows "\<exists>new. log_activity e s u a de dt ip True =
            Returned (commit (s\<lparr>working := (working s)\<lparr>
               activities := activities (working s) @ [new_activity e (working s) u a de dt ip],
               notifications := notifications (working s) @ new\<rparr>\<rparr>))
          \<and> map n_user_id new = map u_id (supervisors_query (working s))
          \<and> list_all (\<lambda>n. n_title n = fst (notification_text e a usr dt)
                           \<and> n_message n = snd (notification_text e a usr dt)
                           \<and> n_link n = Some l \<and> n_type n = ''info'' \<and> \<not> n_read n) new"
proof -
  let ?s1 = "s\<lparr>working := (working s)\<lparr>activities := activities (working s) @
              [new_activity e (working s) u a de dt ip]\<rparr>\<rparr>"
  let ?t = "fst (notification_text e a usr dt)"
  let ?m = "snd (notification_text e a usr dt)"
  have g: "get_user (working ?s1) u = Some usr" using usr by (simp add: get_user_def)
  have q: "supervisors_query (working ?s1) = supervisors_query (working s)"
    by (simp add: supervisors_query_def)
  from add_notifications_ok[OF nofault, of ?t ?m l "supervisors_query (working s)" ?s1]
  obtain new where new: "add_notifications e ?t ?m l (supervisors_query (working s)) ?s1 =
            Returned (?s1\<lparr>working := (working ?s1)\<lparr>notifications := notifications (working ?s1) @ new\<rparr>\<rparr>)"
      "map n_user_id new = map u_id (supervisors_query (working s))"
      "list_all (\<lambda>n. n_title n = ?t \<and> n_message n = ?m \<and> n_link n = Some l
                            \<and> n_type n = ''info'' \<and> \<not> n_read n) new"
    by blast
  have "log_activity_notify e ?s1 u a dt True =
          Returned (commit (?s1\<lparr>working := (working ?s1)\<lparr>notifications := notifications (working ?s1) @ new\<rparr>\<rparr>))"
    unfolding log_activity_notify_def
    using act nofault g link q new(1)
    by (simp only: if_True if_False option.case Let_def commit_activity_def
          case_prod_beta outcome.case)
  then have "log_activity e s u a de dt ip True =
            Returned (commit (s\<lparr>working := (working s)\<lparr>
               activities := activities (working s) @ [new_activity e (working s) u a de dt ip],
               notifications := notifications (working s) @ new\<rparr>\<rparr>))"
    unfolding log_activity_def log_activity_try_def using nofault by simp
  with new(2,3) show ?thesis by blast
qed


lemma log_activity_clean:
  assumes "working s = committed s"
  shows "users (committed (swallow (log_activity e s u a de dt ip n))) = users (committed s)
       \<and> occurrences (committed (swallow (log_activity e s u a de dt ip n))) = occurrences (committed s)
       \<and> reset_tokens (committed (swallow (log_activity e s u a de dt ip n))) = reset_tokens (committed s)"
  using log_activity_returns[of e s u a de dt ip n] assms
  by (auto dest: logs_appended_core)

subsection \<open>Reset tokens\<close>

lemma log_activity_tokens:
  "reset_tokens (committed (swallow (log_activity e s u a de dt ip n))) = reset_tokens (committed s)
   \<or> reset_tokens (committed (swallow (log_activity e s u a de dt ip n))) = reset_tokens (working s)"
  using log_activity_returns[of e s u a de dt ip n] by (auto dest: logs_appended_core)

lemma verify_spent: "spent d tok \<Longrightarrow> verify_reset_token d now tok = None"
  by (auto simp: spent_def verify_reset_token_def is_valid_def)

lemma spent_mark_list:
  assumes "find (\<lambda>t. t_token t = tok) ts = Some t" "t_used t"
  shows "\<exists>t'. find (\<lambda>t. t_token t = tok)
           (update_first (\<lambda>t. t_token t = tok') (\<lambda>t. t\<lparr>t_used := True, t_used_at := Some n\<rparr>) ts) = Some t'
         \<and> t_used t'"
proof (cases "tok' = tok")
  case True
  then show ?thesis using assms by (simp add: find_update_first)
next
  case False
  then have "find (\<lambda>t. t_token t = tok)
           (update_first (\<lambda>t. t_token t = tok') (\<lambda>t. t\<lparr>t_used := True, t_used_at := Some n\<rparr>) ts)
        = find (\<lambda>t. t_token t = tok) ts"
    by (intro find_update_first_other) auto
  with assms show ?thesis by simp
qed

lemma spent_token_step:
  "spent d tok \<Longrightarrow> token_step (reset_tokens d) (reset_tokens d') \<Longrightarrow> spent d' tok"
  unfolding spent_def first_reset_token_def token_step_def
proof (elim exE conjE disjE)
  fix t assume "find (\<lambda>t. t_token t = tok) (reset_tokens d) = Some t" "t_used t"
    "reset_tokens d' = reset_tokens d"
  then show "\<exists>t. find (\<lambda>t. t_token t = tok) (reset_tokens d') = Some t \<and> t_used t" by simp
next
  fix t tok' n assume "find (\<lambda>t. t_token t = tok) (reset_tokens d) = Some t" "t_used t"
    "reset_tokens d' = update_first (\<lambda>t. t_token t = tok')
                        (\<lambda>t. t\<lparr>t_used := True, t_used_at := Some n\<rparr>) (reset_tokens d)"
  then show "\<exists>t. find (\<lambda>t. t_token t = tok) (reset_tokens d') = Some t \<and> t_used t"
    using spent_mark_list[of tok "reset_tokens d" t tok' n] by simp
next
  fix t x assume "find (\<lambda>t. t_token t = tok) (reset_tokens d) = Some t" "t_used t"
    "reset_tokens d' = reset_tokens d @ [x]"
  then show "\<exists>t. find (\<lambda>t. t_token t = tok) (reset_tokens d') = Some t \<and> t_used t"
    by (simp add: find_append_Some)
qed

lemma mark_token_used_step:
  obtains s' where "mark_token_used e tok s = Raised s'" "committed s' = committed s"
  | "mark_token_used e tok s = Returned s"
  | s' where "mark_token_used e tok s = Returned s'" "committed s' = working s'"
      "working s' = (working s)\<lparr>reset_tokens := update_first (\<lambda>t. t_token t = tok)
                  (\<lambda>t. t\<lparr>t_used := True, t_used_at := Some (env_now e)\<rparr>) (reset_tokens (working s))\<rparr>"
proof (cases "first_reset_token (working s) tok")
  case None
  then have "mark_token_used e tok s = Returned s" by (simp add: mark_token_used_def)
  then show ?thesis by (rule that(2))
next
  case (Some rt)
  let ?s1 = "s\<lparr>working := (working s)\<lparr>reset_tokens := update_first (\<lambda>t. t_token t = tok)
                  (\<lambda>t. t\<lparr>t_used := True, t_used_at := Some (env_now e)\<rparr>) (reset_tokens (working s))\<rparr>\<rparr>"
  show ?thesis
  proof (cases "env_fails e TokenCommitFails")
    case True
    with Some have "mark_token_used e tok s = Raised ?s1" by (simp add: mark_token_used_def)
    then show ?thesis by (rule that(1)) simp
  next
    case False
    with Some have "mark_token_used e tok s = Returned (commit ?s1)"
      by (simp add: mark_token_used_def)
    then show ?thesis by (rule that(3)) (simp_all add: commit_def)
  qed
qed

lemma generate_step:
  "token_step (reset_tokens d) (reset_tokens (apply_token_op (Generate e tok usr h) d))"
  by (auto simp: token_step_def generate_reset_token_def fresh_session_def commit_def Let_def)

lemma mark_step:
  "token_step (reset_tokens d) (reset_tokens (apply_token_op (MarkUsed e tok) d))"
  by (rule mark_token_used_step[of e tok "fresh_session d"])
     (auto simp: token_step_def fresh_session_def)

lemma submit_step:
  assumes "working s = committed s"
  shows "token_step (reset_tokens (committed s))
           (reset_tokens (committed (snd (reset_password_submit e usr tok form s))))"
proof (cases form)
  case None
  then show ?thesis by (simp add: reset_password_submit_def token_step_def)
next
  case (Some password)
  let ?s1 = "s\<lparr>working := (working s)\<lparr>users :=
                      update_first (\<lambda>u. u_id u = u_id usr) (set_password e password)
                        (users (working s))\<rparr>\<rparr>"
  have la: "reset_tokens (committed (swallow (log_activity e (commit s2) u a de dt ip n)))
              = reset_tokens (working s2)" for s2 u a de dt ip n
    using log_activity_tokens[of e "commit s2" u a de dt ip n] by (auto simp: commit_def)
  show ?thesis
  proof (rule mark_token_used_step[of e tok ?s1])
    fix s2 assume "mark_token_used e tok ?s1 = Raised s2" "committed s2 = committed ?s1"
    then show ?thesis using Some
      by (simp add: reset_password_submit_def token_step_def rollback_def)
  next
    assume "mark_token_used e tok ?s1 = Returned ?s1"
    then show ?thesis using Some assms la[of ?s1]
      by (simp add: reset_password_submit_def token_step_def rollback_def)
  next
    fix s2 assume "mark_token_used e tok ?s1 = Returned s2" "committed s2 = working s2"
      "working s2 = (working ?s1)\<lparr>reset_tokens := update_first (\<lambda>t. t_token t = tok)
                  (\<lambda>t. t\<lparr>t_used := True, t_used_at := Some (env_now e)\<rparr>) (reset_tokens (working ?s1))\<rparr>"
    then show ?thesis using Some assms la[of s2]
      by (auto simp: reset_password_submit_def token_step_def rollback_def)
  qed
qed

lemma reset_step:
  "token_step (reset_tokens d) (reset_tokens (apply_token_op (ResetPassword e a tok form) d))"
proof (cases "reset_password_verify e a tok (fresh_session d)")
  case (Inl r)
  then show ?thesis by (simp add: reset_password_def token_step_def fresh_session_def)
next
  case (Inr usr)
  then show ?thesis
    using submit_step[of "fresh_session d" e usr tok form]
    by (simp add: reset_password_def fresh_session_def)
qed

lemma spent_apply_op: "spent d tok \<Longrightarrow> spent (apply_token_op opn d) tok"
proof (cases opn)
  case (Generate e tok' usr h)
  assume "spent d tok"
  then show ?thesis unfolding Generate by (rule spent_token_step) (rule generate_step)
next
  case (MarkUsed e tok')
  assume "spent d tok"
  then show ?thesis unfolding MarkUsed by (rule spent_token_step) (rule mark_step)
next
  case (ResetPassword e a tok' form)
  assume "spent d tok"
  then show ?thesis unfolding ResetPassword by (rule spent_token_step) (rule reset_step)
qed

lemma spent_apply_ops: "spent d tok \<Longrightarrow> spent (apply_token_ops ops d) tok"
  unfolding apply_token_ops_def
proof (induction ops arbitrary: d)
  case Nil
  then show ?case by simp
next
  case (Cons opn ops)
  from Cons.prems have "spent (apply_token_op opn d) tok" by (rule spent_apply_op)
  then have "spent (fold apply_token_op ops (apply_token_op opn d)) tok" by (rule Cons.IH)
  then show ?case by simp
qed

lemma reset_password_spent:
  assumes "spent (working s) tok"
  shows "fst (reset_password e a tok form s) \<noteq> Redeemed"
    and "\<not> a \<Longrightarrow> fst (reset_password e a tok form s) = TokenInvalid"
  using verify_spent[OF assms, of "env_now e"]
  by (simp_all add: reset_password_def reset_password_verify_def Redeemed_def TokenInvalid_def)

lemma mark_spends:
  assumes "first_reset_token d tok = Some t" "\<not> env_fails e TokenCommitFails"
  shows "spent (committed (swallow (mark_token_used e tok (fresh_session d)))) tok"
  using assms
  by (simp add: mark_token_used_def fresh_session_def commit_def spent_def
        first_reset_token_def find_update_first)

text \<open>
  Claim C1. For a stored reset token \<open>t\<close> (secrets are unique in the table and every
  row points to a user), \<^verbatim>\<open>verify_reset_token\<close> on its secret returns a user exactly
  when \<open>t\<close> is unused and the clock is strictly before \<open>t_expires_at t\<close>, the user
  returned is the owner, and a secret no row has gives \<open>None\<close>. Once
  \<^verbatim>\<open>mark_token_used\<close> has run on the secret, whatever token operations follow
  (\<^verbatim>\<open>generate_reset_token\<close>, \<^verbatim>\<open>mark_token_used\<close>, \<^verbatim>\<open>reset_password\<close>, in any number
  and order), the row found by the secret stays used, \<^verbatim>\<open>verify_reset_token\<close> returns
  \<open>None\<close> at every time, and \<^verbatim>\<open>reset_password\<close> never redeems it again: a visitor who
  is not logged in gets the invalid-link answer.
\<close>

theorem reset_token_single_use:
  assumes uniq: "distinct (map t_token (reset_tokens d))"
      and fk: "\<forall>t\<in>set (reset_tokens d). get_user d (t_user_id t) \<noteq> None"
      and row: "t \<in> set (reset_tokens d)"
      and ok: "\<not> env_fails e TokenCommitFails"
  shows "(verify_reset_token d now (t_token t) \<noteq> None \<longleftrightarrow> \<not> t_used t \<and> now < t_expires_at t)
       \<and> (\<forall>usr. verify_reset_token d now (t_token t) = Some usr \<longrightarrow> u_id usr = t_user_id t)
       \<and> (\<forall>tok. tok \<notin> t_token ` set (reset_tokens d) \<longrightarrow> verify_reset_token d now tok = None)
       \<and> (\<forall>ops e' a form now'.
             spent (apply_token_ops ops
                      (committed (swallow (mark_token_used e (t_token t) (fresh_session d)))))
               (t_token t)
           \<and> verify_reset_token
               (apply_token_ops ops
                  (committed (swallow (mark_token_used e (t_token t) (fresh_session d)))))
               now' (t_token t) = None
           \<and> fst (reset_password e' a (t_token t) form
                 (fresh_session (apply_token_ops ops
                    (committed (swallow (mark_token_used e (t_token t) (fresh_session d)))))))
               \<noteq> Redeemed
           \<and> (\<not> a \<longrightarrow>
               fst (reset_password e' a (t_token t) form
                 (fresh_session (apply_token_ops ops
                    (committed (swallow (mark_token_used e (t_token t) (fresh_session d)))))))
               = TokenInvalid))"
proof -
  have found: "first_reset_token d (t_token t) = Some t"
    unfolding first_reset_token_def using uniq row by (rule find_distinct_key)
  obtain owner where owner: "get_user d (t_user_id t) = Some owner"
    using fk row by blast
  have owner_id: "u_id owner = t_user_id t"
    using owner unfolding get_user_def by (auto dest: find_Some_P)
  have a: "verify_reset_token d now (t_token t) \<noteq> None \<longleftrightarrow> \<not> t_used t \<and> now < t_expires_at t"
    by (simp add: verify_reset_token_def found owner is_valid_def)
  have b: "\<forall>usr. verify_reset_token d now (t_token t) = Some usr \<longrightarrow> u_id usr = t_user_id t"
    using owner_id by (auto simp: verify_reset_token_def found owner split: if_splits)
  have c: "\<forall>tok. tok \<notin> t_token ` set (reset_tokens d) \<longrightarrow> verify_reset_token d now tok = None"
    by (auto simp: verify_reset_token_def first_reset_token_def split: option.splits
          dest: find_Some_P)
  let ?d' = "committed (swallow (mark_token_used e (t_token t) (fresh_session d)))"
  have sp: "spent (apply_token_ops ops ?d') (t_token t)" for ops
    by (rule spent_apply_ops) (rule mark_spends[OF found ok])
  have d: "\<forall>ops e' a form now'.
             spent (apply_token_ops ops ?d') (t_token t)
           \<and> verify_reset_token (apply_token_ops ops ?d') now' (t_token t) = None
           \<and> fst (reset_password e' a (t_token t) form (fresh_session (apply_token_ops ops ?d')))
               \<noteq> Redeemed
           \<and> (\<not> a \<longrightarrow>
               fst (reset_password e' a (t_token t) form (fresh_session (apply_token_ops ops ?d')))
               = TokenInvalid)"
  proof (intro allI conjI impI)
    fix ops e' a form now'
    have w: "spent (working (fresh_session (apply_token_ops ops ?d'))) (t_token t)"
      using sp[of ops] by (simp add: fresh_session_def)
    show "spent (apply_token_ops ops ?d') (t_token t)" by (rule sp)
    show "verify_reset_token (apply_token_ops ops ?d') now' (t_token t) = None"
      using sp by (rule verify_spent)
    show "fst (reset_password e' a (t_token t) form (fresh_session (apply_token_ops ops ?d')))
               \<noteq> Redeemed"
      using w by (rule reset_password_spent(1))
    show "fst (reset_password e' a (t_token t) form (fresh_session (apply_token_ops ops ?d')))
               = TokenInvalid" if "\<not> a"
      using w that by (rule reset_password_spent(2))
  qed
  from a b c d show ?thesis by blast
qed


theorem reset_token_single_use_witness:
  "distinct (map t_token (reset_tokens sample_db))
   \<and> get_user sample_db (t_user_id token_a) = Some ana
   \<and> token_a \<in> set (reset_tokens sample_db)
   \<and> \<not> env_fails sample_env TokenCommitFails
   \<and> verify_reset_token sample_db 1000 ''tok-A'' = Some ana
   \<and> verify_reset_token sample_db 3600000000 ''tok-A'' = None
   \<and> verify_reset_token
        (committed (swallow (mark_token_used sample_env ''tok-A'' (fresh_session sample_db))))
        1000 ''tok-A'' = None
   \<and> fst (reset_password sample_env False ''tok-A'' (Some ''secret1'')
        (fresh_session
           (committed (swallow (mark_token_used sample_env ''tok-A'' (fresh_session sample_db))))))
       = TokenInvalid"
proof -
  have h1: "distinct (map t_token (reset_tokens sample_db))" by (simp add: sample_defs)
  have h2: "\<forall>t\<in>set (reset_tokens sample_db). get_user sample_db (t_user_id t) \<noteq> None"
    by (simp add: sample_defs get_user_def)
  have h3: "token_a \<in> set (reset_tokens sample_db)" by (simp add: sample_defs)
  have h4: "\<not> env_fails sample_env TokenCommitFails" by (simp add: sample_defs)
  have tk: "t_token token_a = ''tok-A''" by (simp add: token_a_def)
  have v: "verify_reset_token sample_db 1000 ''tok-A'' = Some ana"
    "verify_reset_token sample_db 3600000000 ''tok-A'' = None"
    by (simp_all add: verify_reset_token_def first_reset_token_def is_valid_def get_user_def
          sample_defs)
  note main = reset_token_single_use[OF h1 h2 h3 h4, of 1000, unfolded tk]
  from main have after: "\<And>ops e' a form now'.
      verify_reset_token
        (apply_token_ops ops
          (committed (swallow (mark_token_used sample_env ''tok-A'' (fresh_session sample_db)))))
        now' ''tok-A'' = None
      \<and> (\<not> a \<longrightarrow> fst (reset_password e' a ''tok-A'' form
             (fresh_session (apply_token_ops ops
               (committed (swallow (mark_token_used sample_env ''tok-A'' (fresh_session sample_db)))))))
           = TokenInvalid)"
    by blast
  from after[of "[]" 1000 False sample_env "Some ''secret1''"]
  have r: "verify_reset_token
        (committed (swallow (mark_token_used sample_env ''tok-A'' (fresh_session sample_db))))
        1000 ''tok-A'' = None"
    "fst (reset_password sample_env False ''tok-A'' (Some ''secret1'')
        (fresh_session
           (committed (swallow (mark_token_used sample_env ''tok-A'' (fresh_session sample_db))))))
       = TokenInvalid"
    by (simp_all add: apply_token_ops_def)
  have o: "get_user sample_db (t_user_id token_a) = Some ana"
    by (simp add: sample_defs get_user_def)
  from h1 o h3 h4 v r show ?thesis by blast
qed

subsection \<open>Session user\<close>



subsection \<open>Audit isolation\<close>




subsection \<open>Notification fan-out\<close>

lemma count_by_key:
  "distinct (map f xs) \<Longrightarrow>
   length (filter (\<lambda>x. f x = k) xs) = (if k \<in> f ` set xs then 1 else 0)"
  by (induction xs) (auto simp: image_iff)

lemma count_through_map:
  "map g ns = map f xs \<Longrightarrow>
   length (filter (\<lambda>n. g n = k) ns) = length (filter (\<lambda>x. f x = k) xs)"
proof -
  assume m: "map g ns = map f xs"
  have "length (filter (\<lambda>n. g n = k) ns) = length (filter (\<lambda>v. v = k) (map g ns))"
    by (simp add: filter_map comp_def)
  also have "\<dots> = length (filter (\<lambda>v. v = k) (map f xs))" by (simp only: m)
  also have "\<dots> = length (filter (\<lambda>x. f x = k) xs)" by (simp add: filter_map comp_def)
  finally show ?thesis .
qed

lemma key_in_filter:
  "distinct (map f xs) \<Longrightarrow> a \<in> set xs \<Longrightarrow> f a \<in> f ` set (filter Q xs) \<longleftrightarrow> Q a"
  by (induction xs) (auto simp: image_iff)

lemma one_row_per_supervisor:
  assumes ids: "distinct (map u_id (users d))"
      and new: "map n_user_id new = map u_id (supervisors_query d)"
      and a: "a \<in> set (users d)"
  shows "length (filter (\<lambda>n. n_user_id n = u_id a) new)
          = (if u_role a \<in> set [''supervisor'', ''presidente''] \<and> u_id a \<noteq> HIDDEN_USER_ID
             then 1 else 0)"
proof -
  let ?Q = "\<lambda>u. u_role u \<in> set [''supervisor'', ''presidente''] \<and> u_id u \<noteq> HIDDEN_USER_ID"
  have d: "distinct (map u_id (supervisors_query d))"
    unfolding supervisors_query_def using ids by (rule distinct_map_filter)
  have "length (filter (\<lambda>n. n_user_id n = u_id a) new)
          = length (filter (\<lambda>x. u_id x = u_id a) (supervisors_query d))"
    using new by (rule count_through_map)
  also have "\<dots> = (if u_id a \<in> u_id ` set (supervisors_query d) then 1 else 0)"
    using d by (rule count_by_key)
  also have "u_id a \<in> u_id ` set (supervisors_query d) \<longleftrightarrow> ?Q a"
    unfolding supervisors_query_def using ids a by (rule key_in_filter)
  finally show ?thesis .
qed

lemma create_occurrence_link:
  "env_url_for e EP_activities = Some dl \<Longrightarrow>
   notification_link e ''create_occurrence'' dt =
     Some (let occurrence_id =
                 (if details_truthy dt then details_get dt ''occurrence_id'' JNull else JNull)
           in if truthy occurrence_id then
                (case env_url_for e (EP_view_occurrence occurrence_id) of
                   None \<Rightarrow> dl | Some v \<Rightarrow> v)
              else dl)"
  by (simp add: notification_link_def Let_def split: option.splits)

text \<open>
  Claim C7, as the code has it. When nothing fails, the acting user exists and user ids
  are unique, \<^verbatim>\<open>log_activity\<close> for \<^verbatim>\<open>create_occurrence\<close> with
  \<^verbatim>\<open>notify_supervisors=True\<close> appends exactly one notification for every user whose role
  is supervisor or presidente and whose id is not \<^verbatim>\<open>HIDDEN_USER_ID\<close>, and none for
  anyone else. The acting user is not left out: it gets its row when it is itself a
  supervisor or presidente. Every row carries the computed link: the view of the
  occurrence when \<^verbatim>\<open>details['occurrence_id']\<close> is truthy and \<^verbatim>\<open>url_for\<close> builds it,
  the activity feed otherwise.
\<close>

theorem create_occurrence_fan_out:
  assumes nofault: "\<forall>x. \<not> env_fails e x"
      and actor: "get_user (working s) u = Some usr"
      and dlink: "env_url_for e EP_activities = Some dl"
      and ids: "distinct (map u_id (users (working s)))"
  shows "\<exists>new l.
           notifications (committed
               (swallow (log_activity e s u ''create_occurrence'' de dt ip True)))
             = notifications (working s) @ new
         \<and> (\<forall>a\<in>set (users (working s)).
               length (filter (\<lambda>n. n_user_id n = u_id a) new)
                 = (if u_role a \<in> set [''supervisor'', ''presidente'']
                        \<and> u_id a \<noteq> HIDDEN_USER_ID then 1 else 0))
         \<and> length (filter (\<lambda>n. n_user_id n = u) new)
             = (if u_role usr \<in> set [''supervisor'', ''presidente''] \<and> u \<noteq> HIDDEN_USER_ID
                then 1 else 0)
         \<and> (\<forall>n\<in>set new. n_user_id n \<in> u_id ` set (users (working s)) \<and> n_link n = Some l
                            \<and> \<not> n_read n)
         \<and> l = (let occurrence_id =
                       (if details_truthy dt then details_get dt ''occurrence_id'' JNull
                        else JNull)
                 in if truthy occurrence_id then
                      (case env_url_for e (EP_view_occurrence occurrence_id) of
                         None \<Rightarrow> dl | Some v \<Rightarrow> v)
                    else dl)"
proof -
  let ?l = "let occurrence_id =
                       (if details_truthy dt then details_get dt ''occurrence_id'' JNull
                        else JNull)
                 in if truthy occurrence_id then
                      (case env_url_for e (EP_view_occurrence occurrence_id) of
                         None \<Rightarrow> dl | Some v \<Rightarrow> v)
                    else dl"
  have link: "notification_link e ''create_occurrence'' dt = Some ?l"
    using dlink by (rule create_occurrence_link)
  have act: "''create_occurrence'' \<in> set [''login'', ''create_occurrence'', ''edit_occurrence'',
              ''delete_occurrence'', ''toggle_user_status'']" by simp
  from log_activity_flagged_ok[OF nofault act actor link, of de ip]
  obtain new where new:
    "log_activity e s u ''create_occurrence'' de dt ip True =
            Returned (commit (s\<lparr>working := (working s)\<lparr>
               activities := activities (working s) @
                 [new_activity e (working s) u ''create_occurrence'' de dt ip],
               notifications := notifications (working s) @ new\<rparr>\<rparr>))"
    "map n_user_id new = map u_id (supervisors_query (working s))"
    "list_all (\<lambda>n. n_title n = fst (notification_text e ''create_occurrence'' usr dt)
                           \<and> n_message n = snd (notification_text e ''create_occurrence'' usr dt)
                           \<and> n_link n = Some ?l \<and> n_type n = ''info'' \<and> \<not> n_read n) new"
    by blast
  have usr_in: "usr \<in> set (users (working s))" and usr_id: "u_id usr = u"
    using actor unfolding get_user_def by (auto dest: find_Some_P)
  have c1: "notifications (committed
               (swallow (log_activity e s u ''create_occurrence'' de dt ip True)))
             = notifications (working s) @ new"
    by (simp add: new(1) commit_def)
  have c2: "\<forall>a\<in>set (users (working s)).
               length (filter (\<lambda>n. n_user_id n = u_id a) new)
                 = (if u_role a \<in> set [''supervisor'', ''presidente'']
                        \<and> u_id a \<noteq> HIDDEN_USER_ID then 1 else 0)"
    using one_row_per_supervisor[OF ids new(2)] by blast
  have c3: "length (filter (\<lambda>n. n_user_id n = u) new)
             = (if u_role usr \<in> set [''supervisor'', ''presidente''] \<and> u \<noteq> HIDDEN_USER_ID
                then 1 else 0)"
    using one_row_per_supervisor[OF ids new(2) usr_in] by (simp only: usr_id)
  have "set (map n_user_id new) \<subseteq> u_id ` set (users (working s))"
    unfolding new(2) supervisors_query_def by auto
  then have c4: "\<forall>n\<in>set new. n_user_id n \<in> u_id ` set (users (working s)) \<and> n_link n = Some ?l
                            \<and> \<not> n_read n"
    using new(3) by (auto simp: list_all_iff)
  from c1 c2 c3 c4 show ?thesis by blast
qed


theorem create_occurrence_fan_out_witness:
  "(\<forall>x. \<not> env_fails sample_env x) \<and> get_user sample_db 1 = Some ana
   \<and> env_url_for sample_env EP_activities = Some ''/activities''
   \<and> distinct (map u_id (users sample_db))
   \<and> map n_user_id (notifications (committed (swallow
        (log_activity sample_env (fresh_session sample_db) 1 ''create_occurrence'' ''x''
           (Some [(''occurrence_id'', JInt 7)]) None True)))) = [2, 3]
   \<and> (\<exists>new l. notifications (committed (swallow
        (log_activity sample_env (fresh_session sample_db) 1 ''create_occurrence'' ''x''
           (Some [(''occurrence_id'', JInt 7)]) None True))) = new
        \<and> length (filter (\<lambda>n. n_user_id n = 2) new) = 1
        \<and> length (filter (\<lambda>n. n_user_id n = 1) new) = 0
        \<and> l = ''/ocorrencia/7'')"
proof -
  have h: "\<forall>x. \<not> env_fails sample_env x" "get_user (working (fresh_session sample_db)) 1 = Some ana"
    "env_url_for sample_env EP_activities = Some ''/activities''"
    "distinct (map u_id (users (working (fresh_session sample_db))))"
    by (simp_all add: sample_defs get_user_def sample_url_for_def)
  from create_occurrence_fan_out[OF h, of "''x''" "Some [(''occurrence_id'', JInt 7)]" None]
  obtain new l where new: "notifications (committed (swallow
        (log_activity sample_env (fresh_session sample_db) 1 ''create_occurrence'' ''x''
           (Some [(''occurrence_id'', JInt 7)]) None True)))
        = notifications (working (fresh_session sample_db)) @ new"
     "\<forall>a\<in>set (users (working (fresh_session sample_db))).
               length (filter (\<lambda>n. n_user_id n = u_id a) new)
                 = (if u_role a \<in> set [''supervisor'', ''presidente'']
                        \<and> u_id a \<noteq> HIDDEN_USER_ID then 1 else 0)"
     "l = (let occurrence_id =
                       (if details_truthy (Some [(''occurrence_id'', JInt 7)])
                        then details_get (Some [(''occurrence_id'', JInt 7)]) ''occurrence_id'' JNull
                        else JNull)
                 in if truthy occurrence_id then
                      (case env_url_for sample_env (EP_view_occurrence occurrence_id) of
                         None \<Rightarrow> ''/activities'' | Some v \<Rightarrow> v)
                    else ''/activities'')"
    by blast
  have e: "map n_user_id (notifications (committed (swallow
        (log_activity sample_env (fresh_session sample_db) 1 ''create_occurrence'' ''x''
           (Some [(''occurrence_id'', JInt 7)]) None True)))) = [2, 3]"
    by (simp add: eval_defs sample_defs)
  have n: "notifications (committed (swallow
        (log_activity sample_env (fresh_session sample_db) 1 ''create_occurrence'' ''x''
           (Some [(''occurrence_id'', JInt 7)]) None True))) = new"
    using new(1) by (simp add: sample_defs)
  have k: "length (filter (\<lambda>n. n_user_id n = 2) new) = 1"
    "length (filter (\<lambda>n. n_user_id n = 1) new) = 0"
    using new(2) by (simp_all add: sample_defs HIDDEN_USER_ID_def)
  have l: "l = ''/ocorrencia/7''"
    using new(3) by (simp add: sample_defs eval_defs)
  from h(1,3) e n k l show ?thesis
    by (simp add: sample_defs get_user_def)
qed

text \<open>
  The claim as stated leaves the acting actor out. Bruno, the only supervisor, records an
  occurrence: the one notification created is addressed to Bruno himself.
\<close>

theorem acting_supervisor_is_notified:
  "get_user small_db 2 = Some bruno \<and> u_role bruno = ''supervisor''
   \<and> map u_id (supervisors_query small_db) = [2]
   \<and> fst (nova_ocorrencia sample_env bruno (Some sample_form) (fresh_session small_db))
       = Redirect ''ocorrencias'' (Some ''success'')
   \<and> map n_user_id (notifications (committed
        (snd (nova_ocorrencia sample_env bruno (Some sample_form) (fresh_session small_db)))))
       = [2]
   \<and> map n_link (notifications (committed
        (snd (nova_ocorrencia sample_env bruno (Some sample_form) (fresh_session small_db)))))
       = [Some ''/ocorrencia/1'']"
  by (simp add: eval_defs small_db_def sample_form_def sample_defs)


subsection \<open>Login\<close>







subsection \<open>Marking a notification as read\<close>

lemma update_first_idem:
  "(\<And>x. P x \<Longrightarrow> P (f x)) \<Longrightarrow> (\<And>x. f (f x) = f x) \<Longrightarrow>
   update_first P f (update_first P f xs) = update_first P f xs"
  by (induction xs) auto

lemma mark_read_effect:
  assumes n: "get_notification (working s) nid = Some n"
      and r: "n_user_id n = u_id cu"
      and ok: "\<not> env_fails e NotificationCommitFails"
  shows "fst (mark_notification_read e cu nid s) = Json True 200"
    and "working (snd (mark_notification_read e cu nid s))
          = committed (snd (mark_notification_read e cu nid s))"
    and "notifications (committed (snd (mark_notification_read e cu nid s)))
          = update_first (\<lambda>x. n_id x = nid) (\<lambda>x. x\<lparr>n_read := True\<rparr>) (notifications (working s))"
    and "users (committed (snd (mark_notification_read e cu nid s))) = users (working s)"
    and "occurrences (committed (snd (mark_notification_read e cu nid s))) = occurrences (working s)"
    and "reset_tokens (committed (snd (mark_notification_read e cu nid s))) = reset_tokens (working s)"
proof -
  let ?s1 = "s\<lparr>working := (working s)\<lparr>notifications :=
                        update_first (\<lambda>n. n_id n = nid) (\<lambda>n. n\<lparr>n_read := True\<rparr>)
                          (notifications (working s))\<rparr>\<rparr>"
  let ?de = "''Marcou notifica'' @ [CHR 0xE7, CHR 0xE3] @ ''o #'' @ env_str e (JInt nid)
                        @ '' como lida''"
  let ?dt = "Some [(''notification_id'', JInt nid)]"
  let ?r = "log_activity e (commit ?s1) (u_id cu) ''mark_notification_read'' ?de ?dt None False"
  have m: "mark_notification_read e cu nid s = (Json True 200, swallow ?r)"
    using n r ok by (simp add: mark_notification_read_def Let_def)
  have "?r = Returned (rollback (commit ?s1))
      \<or> ?r = Returned (commit ((commit ?s1)\<lparr>working := (working (commit ?s1))\<lparr>activities :=
             activities (working (commit ?s1)) @
              [new_activity e (working (commit ?s1)) (u_id cu) ''mark_notification_read'' ?de ?dt
                 None]\<rparr>\<rparr>))"
    by (rule log_activity_quiet) simp
  then have q: "working (swallow ?r) = committed (swallow ?r)
      \<and> notifications (committed (swallow ?r)) = notifications (working ?s1)
      \<and> users (committed (swallow ?r)) = users (working ?s1)
      \<and> occurrences (committed (swallow ?r)) = occurrences (working ?s1)
      \<and> reset_tokens (committed (swallow ?r)) = reset_tokens (working ?s1)"
    by (auto simp: rollback_def commit_def)
  show "fst (mark_notification_read e cu nid s) = Json True 200" by (simp add: m)
  show "working (snd (mark_notification_read e cu nid s))
          = committed (snd (mark_notification_read e cu nid s))"
    using q by (simp add: m)
  show "notifications (committed (snd (mark_notification_read e cu nid s)))
          = update_first (\<lambda>x. n_id x = nid) (\<lambda>x. x\<lparr>n_read := True\<rparr>) (notifications (working s))"
    using q by (simp add: m)
  show "users (committed (snd (mark_notification_read e cu nid s))) = users (working s)"
    using q by (simp add: m)
  show "occurrences (committed (snd (mark_notification_read e cu nid s))) = occurrences (working s)"
    using q by (simp add: m)
  show "reset_tokens (committed (snd (mark_notification_read e cu nid s))) = reset_tokens (working s)"
    using q by (simp add: m)
qed

text \<open>
  Claim C9. For a notification that exists, and when the commit of the route does not
  raise, \<^verbatim>\<open>mark_notification_read\<close> answers with success exactly when the notification's
  \<^verbatim>\<open>user_id\<close> is the requesting user's id; a request by anyone else is answered 403 and
  leaves the session as it was. After a successful call the notification is the same row
  with \<^verbatim>\<open>read = True\<close>, no other notification has changed, and a second call succeeds
  again and leaves the notifications, users, occurrences and reset tokens exactly as the
  first call left them (each successful call also records its own activity row through
  \<^verbatim>\<open>log_activity\<close>).
\<close>

theorem mark_read_recipient_only:
  assumes n: "get_notification (working s) nid = Some n"
      and ok: "\<not> env_fails e NotificationCommitFails"
      and ok': "\<not> env_fails e' NotificationCommitFails"
  shows "(fst (mark_notification_read e cu nid s) = Json True 200 \<longleftrightarrow> n_user_id n = u_id cu)
       \<and> (n_user_id n \<noteq> u_id cu \<longrightarrow>
            mark_notification_read e cu nid s = (Json False 403, s))
       \<and> (n_user_id n = u_id cu \<longrightarrow>
            get_notification (committed (snd (mark_notification_read e cu nid s))) nid
              = Some (n\<lparr>n_read := True\<rparr>)
          \<and> notifications (committed (snd (mark_notification_read e cu nid s)))
              = update_first (\<lambda>x. n_id x = nid) (\<lambda>x. x\<lparr>n_read := True\<rparr>)
                  (notifications (working s))
          \<and> fst (mark_notification_read e' cu nid (snd (mark_notification_read e cu nid s)))
              = Json True 200
          \<and> notifications (committed (snd (mark_notification_read e' cu nid
                 (snd (mark_notification_read e cu nid s)))))
              = notifications (committed (snd (mark_notification_read e cu nid s)))
          \<and> users (committed (snd (mark_notification_read e' cu nid
                 (snd (mark_notification_read e cu nid s)))))
              = users (committed (snd (mark_notification_read e cu nid s)))
          \<and> occurrences (committed (snd (mark_notification_read e' cu nid
                 (snd (mark_notification_read e cu nid s)))))
              = occurrences (committed (snd (mark_notification_read e cu nid s)))
          \<and> reset_tokens (committed (snd (mark_notification_read e' cu nid
                 (snd (mark_notification_read e cu nid s)))))
              = reset_tokens (committed (snd (mark_notification_read e cu nid s))))"
proof (intro conjI impI)
  show "fst (mark_notification_read e cu nid s) = Json True 200 \<longleftrightarrow> n_user_id n = u_id cu"
    using mark_read_effect(1)[OF n _ ok, of cu] n
    by (auto simp: mark_notification_read_def)
next
  assume "n_user_id n \<noteq> u_id cu"
  then show "mark_notification_read e cu nid s = (Json False 403, s)"
    using n by (simp add: mark_notification_read_def)
next
  assume r: "n_user_id n = u_id cu"
  let ?s1 = "snd (mark_notification_read e cu nid s)"
  note first = mark_read_effect[OF n r ok]
  have g: "get_notification (committed ?s1) nid = Some (n\<lparr>n_read := True\<rparr>)"
    using n unfolding get_notification_def first(3) by (simp add: find_update_first)
  then have g': "get_notification (working ?s1) nid = Some (n\<lparr>n_read := True\<rparr>)"
    by (simp add: first(2))
  have r': "n_user_id (n\<lparr>n_read := True\<rparr>) = u_id cu" using r by simp
  note second = mark_read_effect[OF g' r' ok']
  show "get_notification (committed ?s1) nid = Some (n\<lparr>n_read := True\<rparr>)" by (rule g)
  show "notifications (committed ?s1)
              = update_first (\<lambda>x. n_id x = nid) (\<lambda>x. x\<lparr>n_read := True\<rparr>)
                  (notifications (working s))" by (rule first(3))
  show "fst (mark_notification_read e' cu nid ?s1) = Json True 200" by (rule second(1))
  show "notifications (committed (snd (mark_notification_read e' cu nid ?s1)))
              = notifications (committed ?s1)"
    unfolding second(3) first(2) first(3) by (rule update_first_idem) simp_all
  show "users (committed (snd (mark_notification_read e' cu nid ?s1))) = users (committed ?s1)"
    by (simp add: second(4) first(2))
  show "occurrences (committed (snd (mark_notification_read e' cu nid ?s1)))
          = occurrences (committed ?s1)"
    by (simp add: second(5) first(2))
  show "reset_tokens (committed (snd (mark_notification_read e' cu nid ?s1)))
          = reset_tokens (committed ?s1)"
    by (simp add: second(6) first(2))
qed

theorem mark_read_recipient_only_witness:
  "get_notification notified_db 5 = Some note_b
   \<and> \<not> env_fails sample_env NotificationCommitFails
   \<and> n_user_id note_b = u_id bruno \<and> n_user_id note_b \<noteq> u_id carla
   \<and> mark_notification_read sample_env carla 5 (fresh_session notified_db)
       = (Json False 403, fresh_session notified_db)
   \<and> fst (mark_notification_read sample_env bruno 5 (fresh_session notified_db)) = Json True 200
   \<and> get_notification (committed (snd
        (mark_notification_read sample_env bruno 5 (fresh_session notified_db)))) 5
       = Some (note_b\<lparr>n_read := True\<rparr>)
   \<and> fst (mark_notification_read sample_env bruno 5
        (snd (mark_notification_read sample_env bruno 5 (fresh_session notified_db))))
       = Json True 200
   \<and> notifications (committed (snd (mark_notification_read sample_env bruno 5
        (snd (mark_notification_read sample_env bruno 5 (fresh_session notified_db))))))
       = [note_b\<lparr>n_read := True\<rparr>]"
proof -
  have h: "get_notification (working (fresh_session notified_db)) 5 = Some note_b"
    "\<not> env_fails sample_env NotificationCommitFails"
    by (simp_all add: get_notification_def notified_db_def note_b_def sample_defs)
  have k: "n_user_id note_b = u_id bruno" "n_user_id note_b \<noteq> u_id carla"
    by (simp_all add: note_b_def sample_defs)
  have w: "notifications (working (fresh_session notified_db)) = [note_b]"
    "n_id note_b = 5"
    by (simp_all add: notified_db_def note_b_def sample_defs)
  note b = mark_read_recipient_only[OF h(1) h(2) h(2), of bruno]
  note c = mark_read_recipient_only[OF h(1) h(2) h(2), of carla]
  from c k have c1: "mark_notification_read sample_env carla 5 (fresh_session notified_db)
       = (Json False 403, fresh_session notified_db)" by blast
  from b k have b1:
    "fst (mark_notification_read sample_env bruno 5 (fresh_session notified_db)) = Json True 200"
    "get_notification (committed (snd
        (mark_notification_read sample_env bruno 5 (fresh_session notified_db)))) 5
       = Some (note_b\<lparr>n_read := True\<rparr>)"
    "fst (mark_notification_read sample_env bruno 5
        (snd (mark_notification_read sample_env bruno 5 (fresh_session notified_db))))
       = Json True 200"
    "notifications (committed (snd (mark_notification_read sample_env bruno 5
        (snd (mark_notification_read sample_env bruno 5 (fresh_session notified_db))))))
       = update_first (\<lambda>x. n_id x = 5) (\<lambda>x. x\<lparr>n_read := True\<rparr>)
                  (notifications (working (fresh_session notified_db)))"
    by simp_all
  have b2: "notifications (committed (snd (mark_notification_read sample_env bruno 5
        (snd (mark_notification_read sample_env bruno 5 (fresh_session notified_db))))))
       = [note_b\<lparr>n_read := True\<rparr>]"
    unfolding b1(4) w(1) by (simp add: w(2))
  have g: "get_notification notified_db 5 = Some note_b"
    using h(1) by (simp add: fresh_session_def)
  from g h(2) k c1 b1(1,2,3) b2 show ?thesis by blast
qed


subsection \<open>Redemption attempts, one after the other and overlapping\<close>

lemmas token_eval_defs = step_attempt_def reset_password_def reset_password_verify_def
  reset_password_submit_def verify_reset_token_def first_reset_token_def is_valid_def
  mark_token_used_def set_password_def Redeemed_def TokenInvalid_def

lemma sequential_spent:
  "spent d tok \<Longrightarrow>
   run_sequential tok rest d = (replicate (length rest) TokenInvalid, d)"
proof (induction rest)
  case Nil
  show ?case by simp
next
  case (Cons a rest)
  obtain e password where a: "a = (e, password)" by (cases a)
  have v: "verify_reset_token (working (fresh_session d)) (env_now e) tok = None"
    using Cons.prems by (simp add: verify_spent fresh_session_def)
  have "reset_password e False tok (Some password) (fresh_session d)
          = (TokenInvalid, fresh_session d)"
    by (simp add: reset_password_def reset_password_verify_def v TokenInvalid_def)
  then show ?case using Cons.IH[OF Cons.prems] a by (simp add: fresh_session_def)
qed

lemma first_redemption:
  assumes valid: "verify_reset_token d (env_now e) tok = Some usr"
      and ok: "\<not> env_fails e TokenCommitFails" "\<not> env_fails e PasswordCommitFails"
  shows "fst (reset_password e False tok (Some password) (fresh_session d)) = Redeemed"
    and "spent (committed (snd (reset_password e False tok (Some password) (fresh_session d)))) tok"
proof -
  obtain t where t: "first_reset_token d tok = Some t"
    using valid by (auto simp: verify_reset_token_def split: option.splits)
  let ?s1 = "(fresh_session d)\<lparr>working := (working (fresh_session d))\<lparr>users :=
                      update_first (\<lambda>u. u_id u = u_id usr) (set_password e password)
                        (users (working (fresh_session d)))\<rparr>\<rparr>"
  let ?s2 = "?s1\<lparr>working := (working ?s1)\<lparr>reset_tokens :=
                      update_first (\<lambda>t. t_token t = tok)
                        (\<lambda>t. t\<lparr>t_used := True, t_used_at := Some (env_now e)\<rparr>)
                        (reset_tokens (working ?s1))\<rparr>\<rparr>"
  let ?de = "''Palavra-passe redefinida via recupera'' @ [CHR 0xE7, CHR 0xE3] @ ''o''"
  have t1: "first_reset_token (working ?s1) tok = Some t"
    using t by (simp add: first_reset_token_def fresh_session_def)
  have m: "mark_token_used e tok ?s1 = Returned (commit ?s2)"
    using t1 ok(1) by (simp add: mark_token_used_def Let_def)
  have v: "reset_password_verify e False tok (fresh_session d) = Inr usr"
    using valid by (simp add: reset_password_verify_def fresh_session_def)
  have r: "reset_password e False tok (Some password) (fresh_session d)
        = (Redeemed, swallow (log_activity e (commit (commit ?s2)) (u_id usr) ''password_reset''
                       ?de None None False))"
    unfolding reset_password_def v reset_password_submit_def Redeemed_def
    using m ok(2) by (simp add: Let_def)
  show "fst (reset_password e False tok (Some password) (fresh_session d)) = Redeemed"
    by (simp add: r)
  have c: "working (commit (commit ?s2)) = committed (commit (commit ?s2))"
    by (simp add: commit_def)
  have "reset_tokens (committed (snd (reset_password e False tok (Some password)
            (fresh_session d))))
        = reset_tokens (committed (commit (commit ?s2)))"
    using log_activity_clean[OF c] by (simp add: r)
  also have "\<dots> = update_first (\<lambda>t. t_token t = tok)
                        (\<lambda>t. t\<lparr>t_used := True, t_used_at := Some (env_now e)\<rparr>)
                        (reset_tokens d)"
    by (simp add: commit_def fresh_session_def)
  finally show "spent (committed (snd (reset_password e False tok (Some password)
            (fresh_session d)))) tok"
    using t by (simp add: spent_def first_reset_token_def find_update_first)
qed

lemma mark_token_used_unconditional:
  assumes "first_reset_token (working s) tok = Some t" "\<not> env_fails e TokenCommitFails"
  shows "\<exists>s'. mark_token_used e tok s = Returned s'
          \<and> first_reset_token (committed s') tok
              = Some (t\<lparr>t_used := True, t_used_at := Some (env_now e)\<rparr>)"
  using assms
  by (simp add: mark_token_used_def Let_def commit_def first_reset_token_def find_update_first)

text \<open>
  Claim C2, as the code has it. When the attempts to redeem a valid token run one after
  the other (each \<^verbatim>\<open>reset_password\<close> finishes before the next begins, and the first one's
  commits do not raise), the first is redeemed, every later one gets the invalid-link
  answer, and the token stays used. The code has no conditional update:
  \<^verbatim>\<open>mark_token_used\<close> writes \<^verbatim>\<open>used\<close> and \<^verbatim>\<open>used_at\<close> on the row it finds whatever
  the row's \<^verbatim>\<open>used\<close> and expiry are, and returns nothing to tell the two cases apart;
  the only check of \<^verbatim>\<open>used\<close> is the earlier read in \<^verbatim>\<open>verify_reset_token\<close>.
\<close>

theorem sequential_redemptions_one_success:
  assumes valid: "verify_reset_token d (env_now e) tok = Some usr"
      and ok: "\<not> env_fails e TokenCommitFails" "\<not> env_fails e PasswordCommitFails"
  shows "fst (run_sequential tok ((e, password) # rest) d)
           = Redeemed # replicate (length rest) TokenInvalid
       \<and> spent (snd (run_sequential tok ((e, password) # rest) d)) tok
       \<and> (\<forall>e' s t. first_reset_token (working s) tok = Some t
              \<and> \<not> env_fails e' TokenCommitFails \<longrightarrow>
              (\<exists>s'. mark_token_used e' tok s = Returned s'
                  \<and> first_reset_token (committed s') tok
                      = Some (t\<lparr>t_used := True, t_used_at := Some (env_now e')\<rparr>)))"
proof -
  let ?r = "reset_password e False tok (Some password) (fresh_session d)"
  note f = first_redemption[OF valid ok, of password]
  have rest: "run_sequential tok rest (committed (snd ?r))
                = (replicate (length rest) TokenInvalid, committed (snd ?r))"
    using f(2) by (rule sequential_spent)
  have "run_sequential tok ((e, password) # rest) d
          = (fst ?r # replicate (length rest) TokenInvalid, committed (snd ?r))"
    using rest by (simp add: case_prod_beta)
  then have a: "fst (run_sequential tok ((e, password) # rest) d)
           = Redeemed # replicate (length rest) TokenInvalid"
    and b: "spent (snd (run_sequential tok ((e, password) # rest) d)) tok"
    using f by simp_all
  have c: "\<forall>e' s t. first_reset_token (working s) tok = Some t
              \<and> \<not> env_fails e' TokenCommitFails \<longrightarrow>
              (\<exists>s'. mark_token_used e' tok s = Returned s'
                  \<and> first_reset_token (committed s') tok
                      = Some (t\<lparr>t_used := True, t_used_at := Some (env_now e')\<rparr>))"
    using mark_token_used_unconditional by blast
  from a b c show ?thesis by blast
qed

theorem sequential_redemptions_one_success_witness:
  "verify_reset_token sample_db (env_now sample_env) ''tok-A'' = Some ana
   \<and> \<not> env_fails sample_env TokenCommitFails \<and> \<not> env_fails sample_env PasswordCommitFails
   \<and> fst (run_sequential ''tok-A''
        [(sample_env, ''secret1''), (sample_env, ''secret2''), (sample_env, ''secret3'')]
        sample_db) = [Redeemed, TokenInvalid, TokenInvalid]
   \<and> first_reset_token (working (fresh_session spent_db)) ''tok-A''
       = Some (token_a\<lparr>t_used := True, t_used_at := Some 1000\<rparr>)
   \<and> (\<exists>s'. mark_token_used (sample_env\<lparr>env_now := 2000\<rparr>) ''tok-A'' (fresh_session spent_db)
              = Returned s'
          \<and> first_reset_token (committed s') ''tok-A''
              = Some (token_a\<lparr>t_used := True, t_used_at := Some 2000\<rparr>))"
proof -
  have h: "verify_reset_token sample_db (env_now sample_env) ''tok-A'' = Some ana"
    "\<not> env_fails sample_env TokenCommitFails" "\<not> env_fails sample_env PasswordCommitFails"
    by (simp_all add: verify_reset_token_def first_reset_token_def is_valid_def get_user_def
          sample_defs)
  have k: "first_reset_token (working (fresh_session spent_db)) ''tok-A''
       = Some (token_a\<lparr>t_used := True, t_used_at := Some 1000\<rparr>)"
    "\<not> env_fails (sample_env\<lparr>env_now := 2000\<rparr>) TokenCommitFails"
    by (simp_all add: first_reset_token_def spent_db_def sample_defs)
  note main = sequential_redemptions_one_success[OF h,
      of "''secret1''" "[(sample_env, ''secret2''), (sample_env, ''secret3'')]"]
  from main have a: "fst (run_sequential ''tok-A''
        [(sample_env, ''secret1''), (sample_env, ''secret2''), (sample_env, ''secret3'')]
        sample_db) = [Redeemed, TokenInvalid, TokenInvalid]"
    by (simp add: numeral_3_eq_3 numeral_2_eq_2)
  from main k have b: "\<exists>s'. mark_token_used (sample_env\<lparr>env_now := 2000\<rparr>) ''tok-A''
              (fresh_session spent_db) = Returned s'
          \<and> first_reset_token (committed s') ''tok-A''
              = Some (token_a\<lparr>t_used := True, t_used_at := Some 1000\<rparr>
                        \<lparr>t_used := True, t_used_at := Some (env_now (sample_env\<lparr>env_now := 2000\<rparr>))\<rparr>)"
    by blast
  from h a k(1) b show ?thesis by simp
qed

text \<open>
  The claim as stated has exactly one success among simultaneous attempts. Two attempts
  on the same valid token, each reading before either writes (the schedule 0, 1, 0, 1),
  are both redeemed; run one after the other (0, 0, 1, 1) the second is refused.
\<close>

theorem overlapping_redemptions_both_succeed:
  "verify_reset_token sample_db 1000 ''tok-A'' = Some ana
   \<and> map at_state (fst (run_schedule ''tok-A'' [0, 1, 0, 1] [first_attempt, second_attempt]
          sample_db)) = [Finished Redeemed, Finished Redeemed]
   \<and> map at_state (fst (run_schedule ''tok-A'' [0, 0, 1, 1] [first_attempt, second_attempt]
          sample_db)) = [Finished Redeemed, Finished TokenInvalid]"
  by (simp add: first_attempt_def second_attempt_def token_eval_defs eval_defs sample_defs)



subsection \<open>Listings and the hidden user\<close>

lemmas listing_eval_defs = ocorrencias_def export_csv_def users_listing_def supervisor_scope_def
  presidente_scope_def presidente_users_def nadadores_query_def date_filters_def
  zone_type_filters_def search_filter_def order_by_date_desc_def no_args_def int_truthy_def
  ROLE_NADADOR_def ROLE_SUPERVISOR_def ROLE_PRESIDENTE_def HIDDEN_USER_ID_def str_truthy_def
  get_user_def Let_def oculto_def oculta_def occ_ana_def occ_oculto_def hidden_db_def
  hidden_supervisor_db_def

lemma roles_differ: "ROLE_SUPERVISOR \<noteq> ROLE_NADADOR" "ROLE_PRESIDENTE \<noteq> ROLE_NADADOR"
  "ROLE_PRESIDENTE \<noteq> ROLE_SUPERVISOR"
  by (simp_all add: ROLE_SUPERVISOR_def ROLE_NADADOR_def ROLE_PRESIDENTE_def)

lemma set_order_by_date_desc: "set (order_by_date_desc q) = set q"
  by (simp add: order_by_date_desc_def)

lemma zone_type_filters_subset: "set (zone_type_filters z t q) \<subseteq> set q"
  by (auto simp: zone_type_filters_def Let_def)

lemma search_filter_subset: "set (search_filter e sq d q) \<subseteq> set q"
  by (auto simp: search_filter_def Let_def split: option.splits)

lemma date_filters_subset: "date_filters e sd ed q = Some q1 \<Longrightarrow> set q1 \<subseteq> set q"
  by (auto simp: date_filters_def split: option.splits if_splits)

lemma date_filters_absent: "date_filters e None None q = Some q"
  by (simp add: date_filters_def)

lemma narrowed_subset:
  assumes "date_filters e sd ed q = Some q1"
  shows "set (order_by_date_desc (search_filter e sq d (zone_type_filters z t q1))) \<subseteq> set q"
    and "set (order_by_date_desc (zone_type_filters z t q1)) \<subseteq> set q"
  using date_filters_subset[OF assms] zone_type_filters_subset[of z t q1]
    search_filter_subset[of e sq d "zone_type_filters z t q1"]
  by (auto simp: set_order_by_date_desc)

lemma export_rows_occurrences: "export_rows d occs = Some rows \<Longrightarrow> map fst rows = occs"
  by (induction occs arbitrary: rows) (auto split: option.splits)

text \<open>What a listing holds, by the branch of the permission block that produced it.\<close>

lemma ocorrencias_listed:
  assumes "ocorrencias e cu args d = Listing occs us"
  obtains (nadador) "u_role cu = ROLE_NADADOR" "us = None"
      "set occs \<subseteq> set (filter (\<lambda>oc. o_user_id oc = u_id cu) (occurrences d))"
  | (supervisor) query where "u_role cu = ROLE_SUPERVISOR" "us = Some (nadadores_query d)"
      "supervisor_scope cu (arg_user_id args) d (occurrences d) = Some query"
      "set occs \<subseteq> set query"
  | (presidente) "u_role cu \<noteq> ROLE_NADADOR" "u_role cu \<noteq> ROLE_SUPERVISOR"
      "us = Some (presidente_users cu d)"
      "set occs \<subseteq> set (presidente_scope (arg_user_id args) (occurrences d))"
proof (cases "u_role cu = ROLE_NADADOR")
  case True
  with assms show ?thesis
    by (intro nadador)
       (auto simp: ocorrencias_def split: option.splits dest!: narrowed_subset(1))
next
  case False
  show ?thesis
  proof (cases "u_role cu = ROLE_SUPERVISOR")
    case True
    with assms roles_differ(1) obtain query where
      q: "supervisor_scope cu (arg_user_id args) d (occurrences d) = Some query"
      by (auto simp: ocorrencias_def split: option.splits)
    with assms True roles_differ(1) show ?thesis
      by (intro supervisor[of query])
         (auto simp: ocorrencias_def split: option.splits dest!: narrowed_subset(1))
  next
    case sup: False
    with assms False show ?thesis
      by (intro presidente)
         (auto simp: ocorrencias_def split: option.splits dest!: narrowed_subset(1))
  qed
qed

lemma export_csv_rows:
  assumes "export_csv e cu args d = ExportRows rows"
  obtains (nadador) "u_role cu = ROLE_NADADOR"
      "fst ` set rows \<subseteq> set (filter (\<lambda>oc. o_user_id oc = u_id cu) (occurrences d))"
  | (supervisor) query where "u_role cu = ROLE_SUPERVISOR"
      "supervisor_scope cu (arg_user_id args) d (occurrences d) = Some query"
      "fst ` set rows \<subseteq> set query"
  | (presidente) "u_role cu \<noteq> ROLE_NADADOR" "u_role cu \<noteq> ROLE_SUPERVISOR"
      "fst ` set rows \<subseteq> set (presidente_scope (arg_user_id args) (occurrences d))"
proof -
  let ?scope = "if u_role cu = ROLE_NADADOR then
              Some (filter (\<lambda>oc. o_user_id oc = u_id cu) (occurrences d))
            else if u_role cu = ROLE_SUPERVISOR then
              supervisor_scope cu (arg_user_id args) d (occurrences d)
            else Some (presidente_scope (arg_user_id args) (occurrences d))"
  from assms obtain query q1 where
    sc: "?scope = Some query"
    and df: "date_filters e (arg_start_date args) (arg_end_date args) query = Some q1"
    and er: "export_rows d (order_by_date_desc (zone_type_filters (arg_zone args) (arg_type args) q1))
              = Some rows"
    unfolding export_csv_def by (auto split: option.splits)
  have "fst ` set rows = set (map fst rows)" by simp
  also have "\<dots> = set (order_by_date_desc (zone_type_filters (arg_zone args) (arg_type args) q1))"
    using export_rows_occurrences[OF er] by simp
  also have "\<dots> \<subseteq> set query" using narrowed_subset(2)[OF df] .
  finally have sub: "fst ` set rows \<subseteq> set query" .
  show ?thesis
  proof (cases "u_role cu = ROLE_NADADOR")
    case True
    with sc sub show ?thesis by (intro nadador) auto
  next
    case False
    show ?thesis
    proof (cases "u_role cu = ROLE_SUPERVISOR")
      case True
      with sc sub roles_differ(1) show ?thesis by (intro supervisor[of query]) auto
    next
      case sup: False
      with sc sub False show ?thesis by (intro presidente) auto
    qed
  qed
qed







lemma unfiltered:
  "zone_type_filters None None q = q" "search_filter e None d q = q"
  by (simp_all add: zone_type_filters_def search_filter_def str_truthy_def)

lemma ocorrencias_no_args_nadador:
  "u_role cu = ROLE_NADADOR \<Longrightarrow>
   ocorrencias e cu (no_args\<lparr>arg_user_id := x\<rparr>) d
     = Listing (order_by_date_desc (filter (\<lambda>oc. o_user_id oc = u_id cu) (occurrences d))) None"
  by (simp add: ocorrencias_def no_args_def date_filters_absent unfiltered)



text \<open>
  Claim C5, as the code has it. For a swimmer the listing and the export hold only the
  swimmer's own occurrences, and with no other filter exactly those; no list of users is
  offered. An explicit \<^verbatim>\<open>user_id\<close> is not looked at: whatever its value the answer is
  the same as without it, and it is never the access-denied redirect.
\<close>

theorem swimmer_scope_own_records:
  assumes "u_role cu = ROLE_NADADOR"
  shows "ocorrencias e cu args d \<noteq> ListingDenied
       \<and> export_csv e cu args d \<noteq> ExportDenied
       \<and> ocorrencias e cu (args\<lparr>arg_user_id := x\<rparr>) d = ocorrencias e cu args d
       \<and> export_csv e cu (args\<lparr>arg_user_id := x\<rparr>) d = export_csv e cu args d
       \<and> (\<forall>occs us. ocorrencias e cu args d = Listing occs us \<longrightarrow>
             us = None \<and> (\<forall>oc\<in>set occs. o_user_id oc = u_id cu))
       \<and> (\<forall>rows. export_csv e cu args d = ExportRows rows \<longrightarrow>
             (\<forall>r\<in>set rows. o_user_id (fst r) = u_id cu))
       \<and> (\<exists>occs. ocorrencias e cu (no_args\<lparr>arg_user_id := x\<rparr>) d = Listing occs None
             \<and> set occs = {oc \<in> set (occurrences d). o_user_id oc = u_id cu})"
proof (intro conjI allI impI)
  show "ocorrencias e cu args d \<noteq> ListingDenied"
    using assms by (simp add: ocorrencias_def split: option.splits)
  show "export_csv e cu args d \<noteq> ExportDenied"
    using assms by (simp add: export_csv_def split: option.splits)
  show "ocorrencias e cu (args\<lparr>arg_user_id := x\<rparr>) d = ocorrencias e cu args d"
    using assms by (simp add: ocorrencias_def cong: option.case_cong)
  show "export_csv e cu (args\<lparr>arg_user_id := x\<rparr>) d = export_csv e cu args d"
    using assms by (simp add: export_csv_def cong: option.case_cong)
next
  fix occs us assume l: "ocorrencias e cu args d = Listing occs us"
  from l show "us = None"
    by (rule ocorrencias_listed) (use assms roles_differ in auto)
  from l show "\<forall>oc\<in>set occs. o_user_id oc = u_id cu"
    by (rule ocorrencias_listed) (use assms roles_differ in auto)
next
  fix rows assume r: "export_csv e cu args d = ExportRows rows"
  from r show "\<forall>r\<in>set rows. o_user_id (fst r) = u_id cu"
    by (rule export_csv_rows) (use assms roles_differ in auto)
next
  show "\<exists>occs. ocorrencias e cu (no_args\<lparr>arg_user_id := x\<rparr>) d = Listing occs None
             \<and> set occs = {oc \<in> set (occurrences d). o_user_id oc = u_id cu}"
    using ocorrencias_no_args_nadador[OF assms, of e x d]
    by (simp add: set_order_by_date_desc)
qed

theorem swimmer_scope_own_records_witness:
  "u_role ana = ROLE_NADADOR
   \<and> ocorrencias sample_env ana (no_args\<lparr>arg_user_id := Some 12\<rparr>) hidden_db
       = ocorrencias sample_env ana no_args hidden_db
   \<and> ocorrencias sample_env ana no_args hidden_db = Listing [occ_ana] None
   \<and> ocorrencias sample_env ana (no_args\<lparr>arg_user_id := Some 12\<rparr>) hidden_db \<noteq> ListingDenied"
proof -
  have h: "u_role ana = ROLE_NADADOR" by (simp add: ana_def ROLE_NADADOR_def)
  note main = swimmer_scope_own_records[OF h, of sample_env no_args hidden_db "Some 12"]
  note main' = swimmer_scope_own_records[OF h, of sample_env "no_args\<lparr>arg_user_id := Some 12\<rparr>"
      hidden_db "Some 12"]
  have e: "ocorrencias sample_env ana no_args hidden_db = Listing [occ_ana] None"
    by (simp add: listing_eval_defs sample_defs sort_key_def)
  from main main' h e show ?thesis by simp
qed

text \<open>
  The claim as stated rejects a swimmer's explicit target. Ana (id 1) asks for the
  occurrences of user 2: she is shown her own.
\<close>

theorem swimmer_target_is_not_rejected:
  "u_role ana = ROLE_NADADOR \<and> u_id ana \<noteq> 2
   \<and> ocorrencias sample_env ana (no_args\<lparr>arg_user_id := Some 2\<rparr>) hidden_db
       = Listing [occ_ana] None
   \<and> export_csv sample_env ana (no_args\<lparr>arg_user_id := Some 2\<rparr>) hidden_db
       = ExportRows [(occ_ana, ''ana@example.org'')]"
  by (simp add: listing_eval_defs sample_defs sort_key_def)










end
